theory Spec2Isabelle
  imports Complex_Main
begin

section \<open>Conventions of the embedding\<close>

text \<open>
  The program is the OnlyAppeals server: one module that keeps a single in-memory case
  (\<open>state\<close>) and registers tools which read and mutate it. Each tool handler is embedded
  as a function from the case state (and the tool's arguments) to the tool's result
  paired with the state the handler leaves behind; a handler that returns
  \<open>error(...)\<close> yields \<open>Inl\<close> of an error value.

  Numbers. A JavaScript \<open>number\<close> is an IEEE double. A finite double is embedded as
  the \<open>real\<close> it denotes, and every \<open>+\<close>, \<open>-\<close>, \<open>*\<close> and \<open>/\<close> of the source is
  the exact operation followed by \<open>fl\<close>, the rounding to the nearest number with a
  significand of 53 bits, a tie going to the even significand. The exponent of \<open>fl\<close> is
  unbounded: overflow to an infinity and the subnormal numbers below \<open>2 powi (-1022)\<close> are
  outside the model. A decimal literal of the source that is not a double itself
  (\<open>1609.34\<close>) is \<open>fl\<close> of its value. \<open>Math.round\<close> is exact on a double, and so is a
  comparison. The trigonometry of \<open>haversineDistance\<close> is left over the reals.
  \<open>NaN\<close> is modelled where the code can produce it from text (\<open>parseFloat\<close>): there a
  number is a \<open>real option\<close> and \<open>None\<close> stands for \<open>NaN\<close>; a division by zero is
  written out where the code can reach it.

  Strings. A string is a list of 8-bit characters; the inputs considered are ASCII.

  Runtime. Builtins of the JavaScript runtime whose result depends on the clock, the
  locale or the printing and parsing of doubles are parameters of the model, collected in
  the record \<open>js_runtime\<close>.
\<close>

section \<open>Data model\<close>

datatype property_type = sfh | condo | townhouse | live_work | co_op

datatype strength = weak | medium | strong

datatype tone = formal | neutral | concise

text \<open>\<open>interface Property\<close>. An optional field is an \<open>option\<close>.\<close>

record Property =
  address :: string
  apn :: string
  ptype :: property_type
  assessedValue :: real
  estimatedMarketValue :: real
  purchaseYear :: "real option"
  sqft :: "real option"
  beds :: "real option"
  baths :: "real option"
  lat :: "real option"
  lng :: "real option"
  neighborhood :: "string option"

text \<open>
  \<open>interface Comp\<close>. The fields \<open>sqft\<close>, \<open>beds\<close> and \<open>baths\<close> are filled from
  \<open>parseFloat\<close> by find-comps, so they may hold \<open>NaN\<close> (\<open>None\<close>).
\<close>

record Comp =
  comp_id :: string
  comp_address :: string
  saleDate :: string
  salePrice :: real
  comp_sqft :: "real option"
  comp_beds :: "real option"
  comp_baths :: "real option"
  distance :: real
  included :: bool
  comp_notes :: string

record Argument =
  narrative :: string
  declaredMarketValue :: real
  arg_tone :: tone

text \<open>\<open>interface AppState\<close>; \<open>null\<close> is \<open>None\<close>.\<close>

record AppState =
  property :: "Property option"
  comps :: "Comp list"
  argument :: "Argument option"

definition initial_state :: AppState where
  "initial_state = \<lparr>property = None, comps = [], argument = None\<rparr>"

text \<open>
  The \<open>error(...)\<close> results of the handlers, one constructor per kind of message:
  \<^item> \<open>NoActiveProperty\<close>: "No subject property set ..." / "No property on file ...";
  \<^item> \<open>MissingCoordinates\<close>: "Subject property has no coordinates ...";
  \<^item> \<open>SourceUnavailable m\<close>: "Failed to search for comps: m";
  \<^item> \<open>InvalidComparable\<close>: "To add a comp, provide at least address, saleDate, and salePrice.";
  \<^item> \<open>NotFound i\<close>: "Comp not found: i";
  \<^item> \<open>NoIncludedComps\<close>: "No comparable sales selected ...";
  \<^item> \<open>NoArgument\<close>: "No value argument drafted. Use generate-argument first.".
\<close>

datatype error =
    NoActiveProperty
  | MissingCoordinates
  | SourceUnavailable string
  | InvalidComparable
  | NotFound string
  | NoIncludedComps
  | NoArgument

section \<open>The JavaScript runtime\<close>

record js_runtime =
  dateNow :: nat
  getMonth :: nat
  getDate :: nat
  parseFloat :: "string \<Rightarrow> real option"
  numToString :: "real \<Rightarrow> string"
  toLocaleString :: "real \<Rightarrow> string"
  toLocaleStringUS :: "real \<Rightarrow> string"
  toFixed1 :: "real \<Rightarrow> string"

text \<open>
  Double arithmetic. \<open>bit_length n\<close> is the number of binary digits of \<open>n\<close>, and
  \<open>exponent x\<close> is the binary exponent of a non-zero \<open>x\<close>: the \<open>e\<close> with
  \<open>2 powi e \<le> \<bar>x\<bar> < 2 powi (e + 1)\<close>. \<open>round_even\<close> rounds to the nearest integer, a tie going to
  the even one. \<open>fl x\<close> scales \<open>x\<close> so that its significand has 53 bits before the point,
  rounds it there and scales back.
\<close>

fun bit_length :: "nat \<Rightarrow> nat" where
  "bit_length n = (if n = 0 then 0 else Suc (bit_length (n div 2)))"

declare bit_length.simps [simp del]

definition exponent :: "real \<Rightarrow> int" where
  "exponent x =
     (if 1 \<le> \<bar>x\<bar> then int (bit_length (nat \<lfloor>\<bar>x\<bar>\<rfloor>)) - 1
      else - int (bit_length (nat (\<lceil>1 / \<bar>x\<bar>\<rceil> - 1))))"

definition round_even :: "real \<Rightarrow> int" where
  "round_even y =
     (if y - of_int \<lfloor>y\<rfloor> < 1 / 2 then \<lfloor>y\<rfloor>
      else if 1 / 2 < y - of_int \<lfloor>y\<rfloor> then \<lfloor>y\<rfloor> + 1
      else if even \<lfloor>y\<rfloor> then \<lfloor>y\<rfloor>
      else \<lfloor>y\<rfloor> + 1)"

definition fl :: "real \<Rightarrow> real" where
  "fl x =
     (if x = 0 then 0
      else of_int (round_even (x / 2 powi (exponent x - 52))) * 2 powi (exponent x - 52))"

text \<open>\<open>Math.round\<close>: the nearest integer, a tie going up.\<close>

definition Math_round :: "real \<Rightarrow> real" where
  "Math_round x = of_int \<lfloor>x + 1 / 2\<rfloor>"

text \<open>Printing of a number that may be \<open>NaN\<close>.\<close>

definition nan_string :: "(real \<Rightarrow> string) \<Rightarrow> real option \<Rightarrow> string" where
  "nan_string f x = (case x of None \<Rightarrow> ''NaN'' | Some v \<Rightarrow> f v)"

text \<open>Decimal printing and reading of a natural number (\<open>String(n)\<close>, \<open>parseInt(s, 10)\<close>
  on a string of digits).\<close>

definition digit_char :: "nat \<Rightarrow> char" where
  "digit_char d = ''0123456789'' ! d"

fun string_of_nat :: "nat \<Rightarrow> string" where
  "string_of_nat n =
     (if n < 10 then [digit_char n] else string_of_nat (n div 10) @ [digit_char (n mod 10)])"

declare string_of_nat.simps [simp del]

definition is_digit :: "char \<Rightarrow> bool" where
  "is_digit c = (48 \<le> (of_char c :: nat) \<and> (of_char c :: nat) \<le> 57)"

definition digit_val :: "char \<Rightarrow> nat" where
  "digit_val c = of_char c - 48"

definition nat_of_digits :: "string \<Rightarrow> nat" where
  "nat_of_digits s = foldl (\<lambda>n c. 10 * n + digit_val c) 0 s"

section \<open>Helpers\<close>

text \<open>
  \<open>isFilingWindowOpen\<close>: January 2 to March 31, with \<open>getMonth\<close> counting from 0.
\<close>

definition isFilingWindowOpen :: "js_runtime \<Rightarrow> bool" where
  "isFilingWindowOpen js =
     (if getMonth js = 0 \<and> getDate js \<ge> 2 then True
      else if getMonth js = 1 then True
      else if getMonth js = 2 then True
      else False)"

text \<open>
  \<open>calculateCaseStrength\<close>: \<open>gap\<close> is
  \<open>((assessedValue - estimatedMarketValue) / assessedValue) * 100\<close>, three double operations.
  For a zero divisor the source computes an infinity or \<open>NaN\<close>: \<open>+Infinity\<close> (strong)
  when the numerator is positive, \<open>-Infinity\<close> or \<open>NaN\<close> (weak) otherwise; that case is
  written out.
\<close>

definition calculateCaseStrength :: "real \<Rightarrow> real \<Rightarrow> strength" where
  "calculateCaseStrength assessed estimated =
     (if assessed = 0 then (if fl (assessed - estimated) > 0 then strong else weak)
      else
        let gap = fl (fl (fl (assessed - estimated) / assessed) * 100) in
        if gap \<ge> 15 then strong
        else if gap \<ge> 5 then medium
        else weak)"

text \<open>The gap of the specification, in its words: the exact quotient.\<close>

definition gapPercent :: "real \<Rightarrow> real \<Rightarrow> real" where
  "gapPercent a r = (a - r) / a * 100"

definition formatCurrency :: "js_runtime \<Rightarrow> real \<Rightarrow> string" where
  "formatCurrency js n = ''$'' @ toLocaleStringUS js n"

section \<open>Address normalisation\<close>

text \<open>
  Character classes of the regular expressions: \<open>\s\<close> (on ASCII: space, tab, line
  feed, vertical tab, form feed, carriage return), \<open>\d\<close>, and \<open>[A-Z]\<close> under the
  flag \<open>i\<close>.
\<close>

definition is_space :: "char \<Rightarrow> bool" where
  "is_space c = ((of_char c :: nat) = 32 \<or> (9 \<le> (of_char c :: nat) \<and> (of_char c :: nat) \<le> 13))"

definition is_letter :: "char \<Rightarrow> bool" where
  "is_letter c =
     ((65 \<le> (of_char c :: nat) \<and> (of_char c :: nat) \<le> 90)
      \<or> (97 \<le> (of_char c :: nat) \<and> (of_char c :: nat) \<le> 122))"

definition to_upper :: "char \<Rightarrow> char" where
  "to_upper c =
     (if 97 \<le> (of_char c :: nat) \<and> (of_char c :: nat) \<le> 122
      then ''ABCDEFGHIJKLMNOPQRSTUVWXYZ'' ! ((of_char c :: nat) - 97)
      else c)"

definition toUpperCase :: "string \<Rightarrow> string" where
  "toUpperCase s = map to_upper s"

text \<open>\<open>s.trim()\<close>.\<close>

definition trim :: "string \<Rightarrow> string" where
  "trim s = rev (dropWhile is_space (rev (dropWhile is_space s)))"

text \<open>
  \<open>s.replace(/\s+/g, " ")\<close>: every maximal run of whitespace becomes one space. The
  flag says that the previous character belonged to a run already replaced.
\<close>

fun collapse_from :: "bool \<Rightarrow> string \<Rightarrow> string" where
  "collapse_from prev [] = []"
| "collapse_from prev (c # cs) =
     (if is_space c then (if prev then collapse_from True cs else CHR '' '' # collapse_from True cs)
      else c # collapse_from False cs)"

definition collapse_spaces :: "string \<Rightarrow> string" where
  "collapse_spaces s = collapse_from False s"

text \<open>\<open>xs.join(sep)\<close>.\<close>

fun join :: "string \<Rightarrow> string list \<Rightarrow> string" where
  "join sep [] = []"
| "join sep [x] = x"
| "join sep (x # y # ys) = x @ sep @ join sep (y # ys)"

text \<open>
  The anchor \<open>/^(.+?)\s*(ST|AV|AVE|BLVD|DR|CT|PL|WAY|LN|RD|TER|CIR|HWY)\s*(.*)$/i\<close>.
  The first group is lazy and not empty: the match is found at the shortest prefix of at
  least one character after which, whitespace skipped, one of the tokens stands. The
  tokens are tried in the order of the alternation, and the first that stands is taken,
  since \<open>\s*(.*)$\<close> accepts whatever follows (the collapsed text has no line
  terminator). No token starts with whitespace, so giving back whitespace of the first
  \<open>\s*\<close> never helps.
\<close>

definition suffix_tokens :: "string list" where
  "suffix_tokens =
     [''ST'', ''AV'', ''AVE'', ''BLVD'', ''DR'', ''CT'', ''PL'', ''WAY'', ''LN'', ''RD'',
      ''TER'', ''CIR'', ''HWY'']"

definition ci_prefix :: "string \<Rightarrow> string \<Rightarrow> bool" where
  "ci_prefix t s = (length t \<le> length s \<and> toUpperCase (take (length t) s) = t)"

definition suffix_at :: "string \<Rightarrow> (string \<times> string) option" where
  "suffix_at r =
     (let r' = dropWhile is_space r in
      case find (\<lambda>t. ci_prefix t r') suffix_tokens of
        None \<Rightarrow> None
      | Some t \<Rightarrow> Some (take (length t) r', dropWhile is_space (drop (length t) r')))"

fun suffix_scan :: "string \<Rightarrow> string \<Rightarrow> (string \<times> string \<times> string) option" where
  "suffix_scan pre [] = None"
| "suffix_scan pre (c # cs) =
     (case suffix_at (c # cs) of
        Some (m, a) \<Rightarrow> Some (pre, m, a)
      | None \<Rightarrow> suffix_scan (pre @ [c]) cs)"

definition suffixMatch :: "string \<Rightarrow> (string \<times> string \<times> string) option" where
  "suffixMatch s = (case s of [] \<Rightarrow> None | c # cs \<Rightarrow> suffix_scan [c] cs)"

text \<open>\<open>s.match(/\d{4}/g)\<close> and \<open>s.replace(/\d{4}/g, "")\<close>: the groups of four
  digits, left to right, not overlapping.\<close>

fun digit_groups :: "string \<Rightarrow> string list" where
  "digit_groups (a # b # c # d # rest) =
     (if is_digit a \<and> is_digit b \<and> is_digit c \<and> is_digit d
      then [a, b, c, d] # digit_groups rest
      else digit_groups (b # c # d # rest))"
| "digit_groups _ = []"

fun remove_digit_groups :: "string \<Rightarrow> string" where
  "remove_digit_groups (a # b # c # d # rest) =
     (if is_digit a \<and> is_digit b \<and> is_digit c \<and> is_digit d
      then remove_digit_groups rest
      else a # remove_digit_groups (b # c # d # rest))"
| "remove_digit_groups s = s"

text \<open>The loop over \<open>nums\<close>: the first group whose value is positive, printed without
  its leading zeros; the empty string when there is none.\<close>

fun first_positive :: "string list \<Rightarrow> string" where
  "first_positive [] = []"
| "first_positive (n # ns) =
     (let val = nat_of_digits n in
      if val > 0 then string_of_nat val else first_positive ns)"

text \<open>
  \<open>s.replace(/^[A-Z]?\d+[A-Z]?(?=[A-Z]{3})/i, "")\<close>. An optional first letter, the
  whole run of digits that follows (a shorter run leaves a digit where a letter must
  stand), then one more letter if three letters still follow it, else no letter if
  three letters follow the digits. Without a match the string is unchanged.
\<close>

definition letters3 :: "string \<Rightarrow> bool" where
  "letters3 r =
     (case r of a # b # c # _ \<Rightarrow> is_letter a \<and> is_letter b \<and> is_letter c | _ \<Rightarrow> False)"

definition strip_junk :: "string \<Rightarrow> string" where
  "strip_junk s =
     (let s1 = (case s of [] \<Rightarrow> s | c # cs \<Rightarrow> if is_letter c then cs else s);
          ds = takeWhile is_digit s1;
          r = dropWhile is_digit s1
      in if ds = [] then s
         else (case r of
                 [] \<Rightarrow> s
               | c # cs \<Rightarrow>
                   if is_letter c \<and> letters3 cs then cs
                   else if letters3 r then r
                   else s))"

text \<open>\<open>afterSuffix.replace(/^#/, "").replace(/^0+/, "").replace(/[^A-Z0-9]/gi, "")\<close>.\<close>

definition parse_unit :: "string \<Rightarrow> string" where
  "parse_unit a =
     filter (\<lambda>c. is_letter c \<or> is_digit c)
       (dropWhile (\<lambda>c. c = CHR ''0'')
          (case a of [] \<Rightarrow> a | c # cs \<Rightarrow> if c = CHR ''#'' then cs else a))"

text \<open>
  The fallback \<open>collapsed.replace(/^0+(\d)/, "$1")\<close>: leading zeros before a digit are
  dropped; when no other digit follows them, the last zero is that digit.
\<close>

definition strip_zero_prefix :: "string \<Rightarrow> string" where
  "strip_zero_prefix s =
     (let zs = takeWhile (\<lambda>c. c = CHR ''0'') s;
          r = dropWhile (\<lambda>c. c = CHR ''0'') s
      in if zs = [] then s
         else if r \<noteq> [] \<and> is_digit (hd r) then r
         else if length zs \<ge> 2 then CHR ''0'' # r
         else s)"

definition parseAddress :: "string \<Rightarrow> string" where
  "parseAddress raw =
     (let trimmed = trim raw;
          collapsed = trim (collapse_spaces trimmed)
      in case suffixMatch collapsed of
           Some (beforeSuffix, m, afterSuffix) \<Rightarrow>
             (let suffix = toUpperCase m;
                  nums = digit_groups beforeSuffix;
                  streetNum = first_positive nums;
                  streetName = trim (strip_junk (trim (remove_digit_groups beforeSuffix)));
                  unitCode = parse_unit afterSuffix;
                  parts = filter (\<lambda>p. p \<noteq> []) [streetNum, streetName, suffix];
                  base = collapse_spaces (join '' '' parts)
              in if unitCode \<noteq> [] then base @ '' #'' @ unitCode else base)
         | None \<Rightarrow> strip_zero_prefix collapsed)"

section \<open>The record source\<close>

text \<open>\<open>interface SFRecord\<close>: a raw row of the open-data feed, every field optional.\<close>

record Geom =
  geom_type :: string
  coordinates :: "real \<times> real"

record SFRecord =
  property_location :: "string option"
  parcel_number :: "string option"
  block :: "string option"
  lot :: "string option"
  use_code :: "string option"
  property_class_code_definition :: "string option"
  year_property_built :: "string option"
  number_of_bedrooms :: "string option"
  number_of_bathrooms :: "string option"
  property_area :: "string option"
  assessed_land_value :: "string option"
  assessed_improvement_value :: "string option"
  current_sales_date :: "string option"
  assessor_neighborhood :: "string option"
  the_geom :: "Geom option"

text \<open>\<open>x ?? d\<close> on an optional string.\<close>

definition or_default :: "string option \<Rightarrow> string \<Rightarrow> string" where
  "or_default x d = (case x of None \<Rightarrow> d | Some v \<Rightarrow> v)"

text \<open>Truthiness of an optional number (\<open>undefined\<close> and 0 are falsy) and of an optional
  string (\<open>undefined\<close> and the empty string are falsy).\<close>

definition truthy_num :: "real option \<Rightarrow> bool" where
  "truthy_num x = (case x of None \<Rightarrow> False | Some v \<Rightarrow> v \<noteq> 0)"

definition truthy_str :: "string option \<Rightarrow> bool" where
  "truthy_str x = (case x of None \<Rightarrow> False | Some v \<Rightarrow> v \<noteq> [])"

text \<open>\<open>Math.atan2(y, x)\<close> and \<open>haversineDistance\<close>, over the reals.\<close>

definition Math_atan2 :: "real \<Rightarrow> real \<Rightarrow> real" where
  "Math_atan2 y x =
     (if x > 0 then arctan (y / x)
      else if x < 0 \<and> y \<ge> 0 then arctan (y / x) + pi
      else if x < 0 then arctan (y / x) - pi
      else if y > 0 then pi / 2
      else if y < 0 then - (pi / 2)
      else 0)"

definition haversineDistance :: "real \<Rightarrow> real \<Rightarrow> real \<Rightarrow> real \<Rightarrow> real" where
  "haversineDistance lat1 lng1 lat2 lng2 =
     (let R = 3959;
          dLat = ((lat2 - lat1) * pi) / 180;
          dLng = ((lng2 - lng1) * pi) / 180;
          a = (sin (dLat / 2))\<^sup>2
              + cos ((lat1 * pi) / 180) * cos ((lat2 * pi) / 180) * (sin (dLng / 2))\<^sup>2
      in R * 2 * Math_atan2 (sqrt a) (sqrt (1 - a)))"

section \<open>Aggregates of the case\<close>

text \<open>\<open>state.comps.filter((c) => c.included)\<close> and the mean
  \<open>included.reduce((s, c) => s + c.salePrice, 0) / included.length\<close>: a double addition
  for each comparable, from the left, and one double division.\<close>

definition included_comps :: "Comp list \<Rightarrow> Comp list" where
  "included_comps cs = filter included cs"

definition avg_price :: "Comp list \<Rightarrow> real" where
  "avg_price incl = fl (foldl (\<lambda>s c. fl (s + salePrice c)) 0 incl / real (length incl))"

text \<open>The strength reported by find-comps and manage-comps for a property: scored against
  the mean price of the included comparables, or against the property's own estimate when
  none is included.\<close>

definition strength_for :: "Property \<Rightarrow> Comp list \<Rightarrow> strength" where
  "strength_for p cs =
     (let incl = included_comps cs in
      calculateCaseStrength (assessedValue p)
        (if length incl > 0 then avg_price incl else estimatedMarketValue p))"

section \<open>Tool results\<close>

text \<open>
  The text output of the comparable tools, by template, holding the values the template
  interpolates:
  \<^item> \<open>NoCompsFound monthsBack\<close>: "No comparable sales found within 2 miles in the last
    \<open>monthsBack\<close> months. ...";
  \<^item> \<open>FoundComps n usedRadius expanded radius total s\<close>: "Found \<open>n\<close> comparable sales
    within \<open>usedRadius\<close> miles[ (expanded from \<open>radius\<close> mi)]. \<open>total\<close> total comps, case
    strength: \<open>s\<close>. ...", the bracket present when \<open>expanded\<close>;
  \<^item> \<open>CompsSummary total n s\<close>: "\<open>total\<close> comps total, \<open>n\<close> included. Case strength:
    \<open>s\<close>.".
\<close>

datatype message =
    NoCompsFound real
  | FoundComps nat real bool real nat strength
  | CompsSummary nat nat strength

text \<open>The \<open>widget({props: {property, comps, caseStrength}, output})\<close> result.\<close>

record CompWorkspace =
  ws_property :: "Property option"
  ws_comps :: "Comp list"
  ws_caseStrength :: strength
  ws_output :: message

section \<open>Tool: find-comps\<close>

text \<open>The radii of the auto-expansion.\<close>

definition radiiToTry :: "real \<Rightarrow> real list" where
  "radiiToTry radius =
     [radius]
     @ (if radius < 0.75 then [0.75] else [])
     @ (if radius < 1.0 then [1.0] else [])
     @ (if radius < 1.5 then [1.5] else [])
     @ (if radius < 2.0 then [2.0] else [])"

definition radiusMeters :: "real \<Rightarrow> real" where
  "radiusMeters r = Math_round (fl (r * fl 1609.34))"

text \<open>
  The record source is \<open>querySFData\<close> behind the filter that find-comps builds. Within
  one call only the radius of the filter varies (the coordinates, the cut-off date computed
  from \<open>monthsBack\<close>, the subject's parcel, \<open>limit\<close> and the order are fixed), so the
  source is a function of the radius in metres; \<open>Inl m\<close> is a thrown error of message
  \<open>m\<close>. The argument \<open>limit\<close> of the tool reaches nothing but that filter.

  The loop over \<open>radiiToTry\<close>, with the variables \<open>records\<close> and \<open>usedRadius\<close> as
  accumulators; it stops at the first radius with a record.
\<close>

fun search_radii ::
  "(real \<Rightarrow> string + SFRecord list) \<Rightarrow> real list \<Rightarrow> SFRecord list \<Rightarrow> real
     \<Rightarrow> string + (SFRecord list \<times> real)" where
  "search_radii query [] records usedRadius = Inr (records, usedRadius)"
| "search_radii query (r # rs) records usedRadius =
     (case query (radiusMeters r) of
        Inl m \<Rightarrow> Inl m
      | Inr recs \<Rightarrow> if length recs > 0 then Inr (recs, r) else search_radii query rs recs r)"

text \<open>\<open>parseFloat(a ?? "0") + parseFloat(b ?? "0")\<close>; \<open>NaN\<close> if either is.\<close>

definition assessed_of :: "js_runtime \<Rightarrow> SFRecord \<Rightarrow> real option" where
  "assessed_of js rec =
     (case (parseFloat js (or_default (assessed_land_value rec) ''0''),
            parseFloat js (or_default (assessed_improvement_value rec) ''0'')) of
        (Some x, Some y) \<Rightarrow> Some (fl (x + y))
      | _ \<Rightarrow> None)"

definition assessed_positive :: "js_runtime \<Rightarrow> SFRecord \<Rightarrow> bool" where
  "assessed_positive js rec = (case assessed_of js rec of None \<Rightarrow> False | Some v \<Rightarrow> v > 0)"

text \<open>
  The record-to-comparable map. \<open>Date.now()\<close> is read once per call of the tool. A row
  with \<open>NaN\<close> for its assessed value never reaches the map (the filter drops it); the
  model gives it the price 0.
\<close>

definition record_to_comp :: "js_runtime \<Rightarrow> Property option \<Rightarrow> SFRecord \<Rightarrow> Comp" where
  "record_to_comp js prop rec =
     (let assessed = (case assessed_of js rec of None \<Rightarrow> 0 | Some v \<Rightarrow> v);
          dist =
            (case (the_geom rec, prop) of
               (Some g, Some p) \<Rightarrow>
                 if truthy_num (lat p) \<and> truthy_num (lng p)
                 then haversineDistance (the (lat p)) (the (lng p))
                        (snd (coordinates g)) (fst (coordinates g))
                 else 0
             | _ \<Rightarrow> 0)
      in \<lparr>comp_id = ''comp-'' @ (case parcel_number rec of
                                     None \<Rightarrow> string_of_nat (dateNow js)
                                   | Some pn \<Rightarrow> pn),
          comp_address = parseAddress (or_default (property_location rec) []),
          saleDate =
            (if truthy_str (current_sales_date rec)
             then takeWhile (\<lambda>c. c \<noteq> CHR ''T'') (the (current_sales_date rec))
             else []),
          salePrice = Math_round assessed,
          comp_sqft = parseFloat js (or_default (property_area rec) ''0''),
          comp_beds = parseFloat js (or_default (number_of_bedrooms rec) ''0''),
          comp_baths = parseFloat js (or_default (number_of_bathrooms rec) ''0''),
          distance = fl (Math_round (fl (dist * 100)) / 100),
          included = True,
          comp_notes = or_default (property_class_code_definition rec) []\<rparr>)"

text \<open>\<open>newComps\<close>: the rows of positive assessed value, converted.\<close>

definition new_comps :: "js_runtime \<Rightarrow> Property option \<Rightarrow> SFRecord list \<Rightarrow> Comp list" where
  "new_comps js prop records =
     map (record_to_comp js prop) (filter (assessed_positive js) records)"

text \<open>The merge loop: \<open>existingIds\<close> is computed once, before the loop.\<close>

definition merge_comps :: "Comp list \<Rightarrow> Comp list \<Rightarrow> Comp list" where
  "merge_comps existing newComps =
     (let existingIds = set (map comp_id existing) in
      existing @ filter (\<lambda>c. comp_id c \<notin> existingIds) newComps)"

definition find_comps ::
  "js_runtime \<Rightarrow> (real \<Rightarrow> string + SFRecord list) \<Rightarrow> real \<Rightarrow> real \<Rightarrow> AppState
     \<Rightarrow> (error + CompWorkspace) \<times> AppState" where
  "find_comps js query radius monthsBack st =
     (case property st of
        None \<Rightarrow> (Inl NoActiveProperty, st)
      | Some p \<Rightarrow>
          if \<not> truthy_num (lat p) \<or> \<not> truthy_num (lng p) then (Inl MissingCoordinates, st)
          else
            (case search_radii query (radiiToTry radius) [] radius of
               Inl m \<Rightarrow> (Inl (SourceUnavailable m), st)
             | Inr (records, usedRadius) \<Rightarrow>
                 if length records = 0 then
                   (Inr \<lparr>ws_property = property st, ws_comps = comps st,
                         ws_caseStrength =
                           calculateCaseStrength (assessedValue p) (estimatedMarketValue p),
                         ws_output = NoCompsFound monthsBack\<rparr>, st)
                 else
                   (let newComps = new_comps js (property st) records;
                        st' = st\<lparr>comps := merge_comps (comps st) newComps\<rparr>;
                        caseStrength = strength_for p (comps st')
                    in (Inr \<lparr>ws_property = property st', ws_comps = comps st',
                             ws_caseStrength = caseStrength,
                             ws_output =
                               FoundComps (length newComps) usedRadius (usedRadius > radius)
                                 radius (length (comps st')) caseStrength\<rparr>, st'))))"

section \<open>Tool: manage-comps\<close>

datatype action = Add | Update | Remove | Toggle | ListComps

text \<open>The optional argument \<open>comp\<close> of the tool (\<open>inp\<close> below): every field optional.\<close>

record CompInput =
  in_id :: "string option"
  in_address :: "string option"
  in_saleDate :: "string option"
  in_salePrice :: "real option"
  in_sqft :: "real option"
  in_beds :: "real option"
  in_baths :: "real option"
  in_distance :: "real option"
  in_notes :: "string option"

text \<open>\<open>comp?.id\<close> when it is truthy.\<close>

definition given_id :: "CompInput option \<Rightarrow> string option" where
  "given_id inp =
     (case inp of
        None \<Rightarrow> None
      | Some c \<Rightarrow> if truthy_str (in_id c) then in_id c else None)"

text \<open>\<open>xs.findIndex(P)\<close>, with \<open>None\<close> for -1.\<close>

fun findIndex :: "('a \<Rightarrow> bool) \<Rightarrow> 'a list \<Rightarrow> nat option" where
  "findIndex P [] = None"
| "findIndex P (x # xs) = (if P x then Some 0 else map_option Suc (findIndex P xs))"

text \<open>The object spread \<open>{ ...old, ...comp }\<close>: a field the input has replaces the old
  one.\<close>

definition spread_comp :: "Comp \<Rightarrow> CompInput \<Rightarrow> Comp" where
  "spread_comp old c =
     \<lparr>comp_id = (case in_id c of None \<Rightarrow> comp_id old | Some v \<Rightarrow> v),
      comp_address = (case in_address c of None \<Rightarrow> comp_address old | Some v \<Rightarrow> v),
      saleDate = (case in_saleDate c of None \<Rightarrow> saleDate old | Some v \<Rightarrow> v),
      salePrice = (case in_salePrice c of None \<Rightarrow> salePrice old | Some v \<Rightarrow> v),
      comp_sqft = (case in_sqft c of None \<Rightarrow> comp_sqft old | Some v \<Rightarrow> Some v),
      comp_beds = (case in_beds c of None \<Rightarrow> comp_beds old | Some v \<Rightarrow> Some v),
      comp_baths = (case in_baths c of None \<Rightarrow> comp_baths old | Some v \<Rightarrow> Some v),
      distance = (case in_distance c of None \<Rightarrow> distance old | Some v \<Rightarrow> v),
      included = included old,
      comp_notes = (case in_notes c of None \<Rightarrow> comp_notes old | Some v \<Rightarrow> v)\<rparr>"

text \<open>The object \<open>newComp\<close> of the add branch, built once the three required fields are
  known to be there.\<close>

definition newComp :: "js_runtime \<Rightarrow> CompInput \<Rightarrow> Comp" where
  "newComp js c =
     \<lparr>comp_id = ''comp-'' @ string_of_nat (dateNow js),
      comp_address = the (in_address c),
      saleDate = the (in_saleDate c),
      salePrice = the (in_salePrice c),
      comp_sqft = Some (case in_sqft c of None \<Rightarrow> 0 | Some v \<Rightarrow> v),
      comp_beds = Some (case in_beds c of None \<Rightarrow> 0 | Some v \<Rightarrow> v),
      comp_baths = Some (case in_baths c of None \<Rightarrow> 0 | Some v \<Rightarrow> v),
      distance = (case in_distance c of None \<Rightarrow> 0 | Some v \<Rightarrow> v),
      included = True,
      comp_notes = (case in_notes c of None \<Rightarrow> [] | Some v \<Rightarrow> v)\<rparr>"

text \<open>
  The four \<open>if\<close> statements of the handler, in order. Each is a step on the state that
  does nothing when its guard is false and returns the error before it mutates anything.
\<close>

definition add_step :: "js_runtime \<Rightarrow> action \<Rightarrow> CompInput option \<Rightarrow> AppState \<Rightarrow> error + AppState" where
  "add_step js act inp st =
     (if act = Add then
        (case inp of
           None \<Rightarrow> Inl InvalidComparable
         | Some c \<Rightarrow>
             if \<not> truthy_str (in_address c) \<or> \<not> truthy_num (in_salePrice c)
                \<or> \<not> truthy_str (in_saleDate c)
             then Inl InvalidComparable
             else Inr (st\<lparr>comps := comps st @ [newComp js c]\<rparr>))
      else Inr st)"

definition update_step :: "action \<Rightarrow> CompInput option \<Rightarrow> AppState \<Rightarrow> error + AppState" where
  "update_step act inp st =
     (if act = Update \<and> given_id inp \<noteq> None then
          (case findIndex (\<lambda>c. comp_id c = the (given_id inp)) (comps st) of
             None \<Rightarrow> Inl (NotFound (the (given_id inp)))
           | Some idx \<Rightarrow>
               Inr (st\<lparr>comps := (comps st)[idx := spread_comp (comps st ! idx) (the inp)]\<rparr>))
      else Inr st)"

definition remove_step :: "action \<Rightarrow> CompInput option \<Rightarrow> AppState \<Rightarrow> error + AppState" where
  "remove_step act inp st =
     (if act = Remove \<and> given_id inp \<noteq> None then
          (case findIndex (\<lambda>c. comp_id c = the (given_id inp)) (comps st) of
             None \<Rightarrow> Inl (NotFound (the (given_id inp)))
           | Some idx \<Rightarrow> Inr (st\<lparr>comps := take idx (comps st) @ drop (Suc idx) (comps st)\<rparr>))
      else Inr st)"

definition toggle_step :: "action \<Rightarrow> CompInput option \<Rightarrow> AppState \<Rightarrow> error + AppState" where
  "toggle_step act inp st =
     (if act = Toggle \<and> given_id inp \<noteq> None then
          (case findIndex (\<lambda>c. comp_id c = the (given_id inp)) (comps st) of
             None \<Rightarrow> Inl (NotFound (the (given_id inp)))
           | Some idx \<Rightarrow>
               Inr (st\<lparr>comps :=
                     (comps st)[idx := (comps st ! idx)\<lparr>included := \<not> included (comps st ! idx)\<rparr>]\<rparr>))
      else Inr st)"

text \<open>The tail of the handler: the aggregates and the widget.\<close>

definition comps_summary :: "AppState \<Rightarrow> CompWorkspace" where
  "comps_summary st =
     (let incl = included_comps (comps st);
          caseStrength =
            (case property st of None \<Rightarrow> weak | Some p \<Rightarrow> strength_for p (comps st))
      in \<lparr>ws_property = property st, ws_comps = comps st, ws_caseStrength = caseStrength,
          ws_output = CompsSummary (length (comps st)) (length incl) caseStrength\<rparr>)"

definition manage_comps ::
  "js_runtime \<Rightarrow> action \<Rightarrow> CompInput option \<Rightarrow> AppState \<Rightarrow> (error + CompWorkspace) \<times> AppState" where
  "manage_comps js act inp st =
     (case add_step js act inp st of
        Inl e \<Rightarrow> (Inl e, st)
      | Inr s1 \<Rightarrow>
     (case update_step act inp s1 of
        Inl e \<Rightarrow> (Inl e, s1)
      | Inr s2 \<Rightarrow>
     (case remove_step act inp s2 of
        Inl e \<Rightarrow> (Inl e, s2)
      | Inr s3 \<Rightarrow>
     (case toggle_step act inp s3 of
        Inl e \<Rightarrow> (Inl e, s3)
      | Inr s4 \<Rightarrow> (Inr (comps_summary s4), s4)))))"

section \<open>Tool: generate-argument\<close>

text \<open>
  Characters of the templates outside ASCII are their UTF-8 bytes: the em dash and the en
  dash. \<open>nl\<close> is the line feed.
\<close>

definition em_dash :: string where
  "em_dash = [CHR 0xE2, CHR 0x80, CHR 0x94]"

definition en_dash :: string where
  "en_dash = [CHR 0xE2, CHR 0x80, CHR 0x93]"

definition nl :: string where
  "nl = [CHR 0x0A]"

definition type_string :: "property_type \<Rightarrow> string" where
  "type_string t =
     (case t of sfh \<Rightarrow> ''sfh'' | condo \<Rightarrow> ''condo'' | townhouse \<Rightarrow> ''townhouse''
      | live_work \<Rightarrow> ''live-work'' | co_op \<Rightarrow> ''co-op'')"

text \<open>
  \<open>((gap / assessedValue) * 100).toFixed(1)\<close>. On a zero divisor the source prints an
  infinity or \<open>NaN\<close>; that case is written out.
\<close>

definition percent_fixed1 :: "js_runtime \<Rightarrow> real \<Rightarrow> real \<Rightarrow> string" where
  "percent_fixed1 js gap a =
     (if a = 0 then (if gap > 0 then ''Infinity'' else if gap < 0 then ''-Infinity'' else ''NaN'')
      else toFixed1 js (fl (fl (gap / a) * 100)))"

text \<open>One line of \<open>compLines\<close>, for the comparable at index \<open>i\<close>.\<close>

definition comp_line :: "js_runtime \<Rightarrow> nat \<Rightarrow> Comp \<Rightarrow> string" where
  "comp_line js i c =
     string_of_nat (i + 1) @ ''. **'' @ comp_address c @ ''** '' @ em_dash @ '' Sold ''
     @ saleDate c @ '' for '' @ formatCurrency js (salePrice c) @ '' (''
     @ nan_string (numToString js) (comp_sqft c) @ '' sqft, ''
     @ nan_string (numToString js) (comp_beds c) @ ''bd/''
     @ nan_string (numToString js) (comp_baths c) @ ''ba, ''
     @ numToString js (distance c) @ '' mi)''
     @ (if comp_notes c \<noteq> [] then '' '' @ em_dash @ '' '' @ comp_notes c else [])"

definition compLines :: "js_runtime \<Rightarrow> Comp list \<Rightarrow> string" where
  "compLines js incl = join nl (map (\<lambda>(i, c). comp_line js i c) (enumerate 0 incl))"

definition narrative_formal :: "js_runtime \<Rightarrow> Property \<Rightarrow> Comp list \<Rightarrow> real \<Rightarrow> string \<Rightarrow> string" where
  "narrative_formal js p incl declared gapPct =
     join nl
       [''# Informal Review '' @ em_dash @ '' Value Argument'' @ nl,
        ''## Subject Property'',
        ''- **Address:** '' @ address p,
        ''- **APN:** '' @ apn p,
        ''- **Property Type:** '' @ type_string (ptype p),
        ''- **Current Assessed Value:** '' @ formatCurrency js (assessedValue p),
        ''- **Owner's Opinion of Market Value (as of Jan 1):** '' @ formatCurrency js declared @ nl,
        ''## Basis for Requested Reduction'',
        ''The current assessed value of '' @ formatCurrency js (assessedValue p)
          @ '' exceeds the fair market value of the subject property as of the January 1 lien date. Based on ''
          @ string_of_nat (length incl)
          @ '' comparable neighborhood sales, the estimated market value is ''
          @ formatCurrency js declared @ '', representing a '' @ gapPct
          @ ''% decline from the assessed value.'' @ nl,
        ''## Comparable Sales Evidence'',
        compLines js incl,
        nl @ ''## Conclusion'',
        ''The comparable sales data supports a market value of '' @ formatCurrency js declared
          @ '' as of January 1. I respectfully request that the assessed value be reduced to reflect the current market conditions.'']"

definition narrative_concise :: "js_runtime \<Rightarrow> Property \<Rightarrow> Comp list \<Rightarrow> real \<Rightarrow> string \<Rightarrow> string" where
  "narrative_concise js p incl declared gapPct =
     join nl
       [''**Property:** '' @ address p @ '' (APN: '' @ apn p @ '')'',
        ''**Assessed:** '' @ formatCurrency js (assessedValue p) @ '' | **Market Value:** ''
          @ formatCurrency js declared @ '' | **Gap:** '' @ gapPct @ ''%'' @ nl,
        ''**Comps:**'',
        compLines js incl,
        nl @ ''Based on these sales, market value is '' @ formatCurrency js declared
          @ ''. Requesting reduction.'']"

definition narrative_neutral ::
  "js_runtime \<Rightarrow> Property \<Rightarrow> Comp list \<Rightarrow> real \<Rightarrow> string \<Rightarrow> real \<Rightarrow> string" where
  "narrative_neutral js p incl declared gapPct avgCompPrice =
     join nl
       [''# Value Argument for '' @ address p @ nl,
        ''My property at '' @ address p @ '' (APN: '' @ apn p @ '') is currently assessed at ''
          @ formatCurrency js (assessedValue p)
          @ ''. Based on recent comparable sales in the neighborhood, I believe the market value as of January 1 is ''
          @ formatCurrency js declared @ '', which is '' @ gapPct
          @ ''% below the assessed value.'' @ nl,
        ''## Comparable Sales'',
        compLines js incl,
        nl @ ''The average sale price of these comparable properties is ''
          @ formatCurrency js (Math_round avgCompPrice)
          @ ''. I am requesting that my assessed value be reduced to ''
          @ formatCurrency js declared @ '' to reflect current market conditions.'']"

definition generate_argument ::
  "js_runtime \<Rightarrow> tone \<Rightarrow> real option \<Rightarrow> AppState \<Rightarrow> (error + string) \<times> AppState" where
  "generate_argument js tn declaredInput st =
     (case property st of
        None \<Rightarrow> (Inl NoActiveProperty, st)
      | Some p \<Rightarrow>
          (let incl = included_comps (comps st) in
           if length incl = 0 then (Inl NoIncludedComps, st)
           else
             (let avgCompPrice = avg_price incl;
                  declared = (case declaredInput of None \<Rightarrow> Math_round avgCompPrice | Some v \<Rightarrow> v);
                  gap = fl (assessedValue p - declared);
                  gapPct = percent_fixed1 js gap (assessedValue p);
                  text =
                    (if tn = formal then narrative_formal js p incl declared gapPct
                     else if tn = concise then narrative_concise js p incl declared gapPct
                     else narrative_neutral js p incl declared gapPct avgCompPrice)
              in (Inr text,
                  st\<lparr>argument :=
                       Some \<lparr>narrative = text, declaredMarketValue = declared, arg_tone = tn\<rparr>\<rparr>))))"

section \<open>The packet builder and the tools generate-packet and export-packet\<close>

definition strength_upper :: "strength \<Rightarrow> string" where
  "strength_upper s = (case s of weak \<Rightarrow> ''WEAK'' | medium \<Rightarrow> ''MEDIUM'' | strong \<Rightarrow> ''STRONG'')"

text \<open>One row of the comparable table.\<close>

definition comp_row :: "js_runtime \<Rightarrow> Comp \<Rightarrow> string" where
  "comp_row js c =
     ''| '' @ comp_address c @ '' | '' @ saleDate c @ '' | '' @ formatCurrency js (salePrice c)
     @ '' | '' @ nan_string (toLocaleString js) (comp_sqft c)
     @ '' | '' @ nan_string (numToString js) (comp_beds c) @ ''/''
     @ nan_string (numToString js) (comp_baths c)
     @ '' | '' @ numToString js (distance c) @ '' mi | ''
     @ (if comp_notes c \<noteq> [] then comp_notes c else em_dash) @ '' |''"

definition compRows :: "js_runtime \<Rightarrow> Comp list \<Rightarrow> string" where
  "compRows js incl = join nl (map (comp_row js) incl)"

text \<open>
  The array of \<open>buildPacketMarkdown\<close>, in three parts: the entries before the table
  rows, those between the rows and the narrative, and those after the narrative.
\<close>

definition packet_head :: "js_runtime \<Rightarrow> Property \<Rightarrow> Argument \<Rightarrow> strength \<Rightarrow> string list" where
  "packet_head js p arg caseStrength =
     (let gap = fl (assessedValue p - declaredMarketValue arg);
          gapPct = percent_fixed1 js gap (assessedValue p)
      in [''# Prop 8 Informal Review '' @ em_dash @ '' Filing Packet'',
          nl @ ''## Subject Property'',
          ''| Field | Value |'',
          ''|-------|-------|'',
          ''| **Address** | '' @ address p @ '' |'',
          ''| **APN** | '' @ apn p @ '' |'',
          ''| **Property Type** | '' @ type_string (ptype p) @ '' |'',
          (if truthy_str (neighborhood p)
           then ''| **Neighborhood** | '' @ the (neighborhood p) @ '' |'' else []),
          ''| **Current Assessed Value** | '' @ formatCurrency js (assessedValue p) @ '' |'',
          ''| **Declared Market Value** | '' @ formatCurrency js (declaredMarketValue arg) @ '' |'',
          ''| **Reduction Requested** | '' @ formatCurrency js gap @ '' ('' @ gapPct @ ''%) |'',
          ''| **Case Strength** | '' @ strength_upper caseStrength @ '' |'',
          (if truthy_num (sqft p)
           then ''| **Size** | '' @ toLocaleString js (the (sqft p)) @ '' sqft |'' else []),
          (if truthy_num (beds p)
           then ''| **Beds/Baths** | '' @ numToString js (the (beds p)) @ ''/''
                @ (case baths p of None \<Rightarrow> ''undefined'' | Some b \<Rightarrow> numToString js b) @ '' |''
           else []),
          nl @ ''## Comparable Sales Evidence'',
          ''| Address | Sale Date | Price | Sqft | Bed/Bath | Distance | Notes |'',
          ''|---------|-----------|-------|------|----------|----------|-------|''])"

definition packet_mid :: "js_runtime \<Rightarrow> real \<Rightarrow> string list" where
  "packet_mid js avgCompPrice =
     [nl @ ''**Average Comparable Sale Price:** '' @ formatCurrency js avgCompPrice,
      nl @ ''## Value Argument'']"

definition packet_tail :: "js_runtime \<Rightarrow> string list" where
  "packet_tail js =
     [nl @ ''## Submission Checklist'',
      ''- [ ] Review all property details above for accuracy'',
      ''- [ ] Verify comparable sales are appropriate'',
      ''- [ ] Review value argument narrative'',
      ''- [ ] Submit via one of the methods below'',
      ''- [ ] Keep a copy of everything you submit'',
      nl @ ''## How to Submit'',
      ''**Filing Window:** ''
        @ (if isFilingWindowOpen js then ''OPEN (Jan 2 '' @ en_dash @ '' Mar 31)'' else ''CLOSED''),
      nl @ ''### Online (Preferred)'',
      ''SF Assessor-Recorder Community Portal: https://sfassessor.org/community-portal'',
      nl @ ''### By Mail'',
      ''Office of the Assessor-Recorder, City Hall, Room 190'',
      ''1 Dr. Carlton B. Goodlett Place, San Francisco, CA 94102'',
      nl @ ''### By Fax'',
      ''(415) 554-7151'',
      nl @ ''### By Email'',
      ''assessor@sfgov.org'',
      nl @ ''## Important Reminders'',
      ''- Only the property **owner** may file (no third-party filings)'',
      ''- Comparable sales should be as close to January 1 as possible'',
      ''- Sales after March 31 will **not** be considered'',
      ''- Results are mailed in **July** via Notice of Assessed Value'',
      ''- If denied, you may file a formal Assessment Appeal (AAB)'',
      nl @ ''---'',
      ''*This packet was prepared using OnlyAppeals. It provides informational and document-preparation support only ''
        @ em_dash @ '' not legal or tax advice. No guarantee of assessment reduction is made or implied.*'']"

definition buildPacketMarkdown ::
  "js_runtime \<Rightarrow> Property \<Rightarrow> Comp list \<Rightarrow> Argument \<Rightarrow> strength \<Rightarrow> real \<Rightarrow> string" where
  "buildPacketMarkdown js p incl arg caseStrength avgCompPrice =
     join nl
       (filter (\<lambda>l. l \<noteq> [])
          (packet_head js p arg caseStrength @ [compRows js incl]
           @ packet_mid js avgCompPrice @ [narrative arg] @ packet_tail js))"

text \<open>The \<open>widget({props: {...}, output: markdown(packetMd)})\<close> of generate-packet.\<close>

record PacketPreview =
  pk_property :: Property
  pk_comps :: "Comp list"
  pk_argument :: Argument
  pk_caseStrength :: strength
  pk_avgCompPrice :: real
  pk_filingWindowOpen :: bool
  pk_output :: string

definition generate_packet :: "js_runtime \<Rightarrow> AppState \<Rightarrow> (error + PacketPreview) \<times> AppState" where
  "generate_packet js st =
     (case property st of
        None \<Rightarrow> (Inl NoActiveProperty, st)
      | Some p \<Rightarrow>
          (let incl = included_comps (comps st) in
           if length incl = 0 then (Inl NoIncludedComps, st)
           else
             (case argument st of
                None \<Rightarrow> (Inl NoArgument, st)
              | Some arg \<Rightarrow>
                  (let avgCompPrice = Math_round (avg_price incl);
                       caseStrength =
                         calculateCaseStrength (assessedValue p) (declaredMarketValue arg);
                       packetMd = buildPacketMarkdown js p incl arg caseStrength avgCompPrice
                   in (Inr \<lparr>pk_property = p, pk_comps = incl, pk_argument = arg,
                            pk_caseStrength = caseStrength, pk_avgCompPrice = avgCompPrice,
                            pk_filingWindowOpen = isFilingWindowOpen js,
                            pk_output = packetMd\<rparr>, st)))))"

definition export_packet :: "js_runtime \<Rightarrow> AppState \<Rightarrow> (error + string) \<times> AppState" where
  "export_packet js st =
     (case property st of
        None \<Rightarrow> (Inl NoActiveProperty, st)
      | Some p \<Rightarrow>
          (let incl = included_comps (comps st) in
           if length incl = 0 then (Inl NoIncludedComps, st)
           else
             (case argument st of
                None \<Rightarrow> (Inl NoArgument, st)
              | Some arg \<Rightarrow>
                  (let avgCompPrice = Math_round (avg_price incl);
                       caseStrength =
                         calculateCaseStrength (assessedValue p) (declaredMarketValue arg)
                   in (Inr (buildPacketMarkdown js p incl arg caseStrength avgCompPrice), st)))))"

section \<open>Properties of the case and sample values\<close>

text \<open>
  Every identifier the tools give a comparable starts with \<open>comp-\<close>: find-comps and
  manage-comps build it so, and an update keeps the identifier it found.
\<close>

definition ids_generated :: "AppState \<Rightarrow> bool" where
  "ids_generated st = list_all (\<lambda>c. take 5 (comp_id c) = ''comp-'') (comps st)"

text \<open>The state with the \<open>included\<close> flag of the comparable at one index flipped.\<close>

definition flip_included :: "nat \<Rightarrow> AppState \<Rightarrow> AppState" where
  "flip_included idx st =
     st\<lparr>comps := (comps st)[idx := (comps st ! idx)\<lparr>included := \<not> included (comps st ! idx)\<rparr>]\<rparr>"

text \<open>
  A runtime for evaluating the tools on sample values: a fixed clock in the filing window,
  \<open>parseFloat\<close> reading a string of decimal digits (\<open>NaN\<close> for any other string), and
  numbers printed by the decimal digits of their integer part.
\<close>

definition digits_to_real :: "string \<Rightarrow> real option" where
  "digits_to_real s =
     (if s \<noteq> [] \<and> list_all is_digit s then Some (real (nat_of_digits s)) else None)"

definition print_int_part :: "real \<Rightarrow> string" where
  "print_int_part x = string_of_nat (nat \<lfloor>x\<rfloor>)"

definition sample_js :: js_runtime where
  "sample_js =
     \<lparr>dateNow = 1767225600000, getMonth = 0, getDate = 15, parseFloat = digits_to_real,
      numToString = print_int_part, toLocaleString = print_int_part,
      toLocaleStringUS = print_int_part, toFixed1 = print_int_part\<rparr>"

definition sample_property :: Property where
  "sample_property =
     \<lparr>address = ''1625 PACIFIC AV #7'', apn = ''0595139'', ptype = condo,
      assessedValue = 1200000, estimatedMarketValue = 1200000, purchaseYear = None,
      sqft = Some 1100, beds = Some 2, baths = Some 2, lat = Some 37.75, lng = Some (-122.5),
      neighborhood = Some ''Pacific Heights''\<rparr>"

definition sample_comp :: "string \<Rightarrow> real \<Rightarrow> bool \<Rightarrow> Comp" where
  "sample_comp i price incl =
     \<lparr>comp_id = i, comp_address = ''990 GREEN ST'', saleDate = ''2025-06-01'',
      salePrice = price, comp_sqft = Some 1000, comp_beds = Some 2, comp_baths = Some 1,
      distance = 0.5, included = incl, comp_notes = []\<rparr>"

definition sample_input :: "string option \<Rightarrow> real option \<Rightarrow> CompInput" where
  "sample_input i price =
     \<lparr>in_id = i, in_address = Some ''2100 JACKSON ST'', in_saleDate = Some ''2025-05-20'',
      in_salePrice = price, in_sqft = None, in_beds = None, in_baths = None,
      in_distance = None, in_notes = None\<rparr>"

definition sample_state :: AppState where
  "sample_state =
     \<lparr>property = Some sample_property,
      comps = [sample_comp ''comp-0595140'' 900000 True, sample_comp ''comp-0595141'' 1000000 True],
      argument = None\<rparr>"

definition sample_record :: "string option \<Rightarrow> SFRecord" where
  "sample_record pn =
     \<lparr>property_location = Some ''0000 0990 GREEN                ST0000'',
      parcel_number = pn, block = None, lot = None, use_code = Some ''SRES'',
      property_class_code_definition = Some ''Dwelling'', year_property_built = None,
      number_of_bedrooms = Some ''2'', number_of_bathrooms = Some ''1'',
      property_area = Some ''1000'', assessed_land_value = Some ''600000'',
      assessed_improvement_value = Some ''300000'',
      current_sales_date = Some ''2025-06-01T00:00:00.000'', assessor_neighborhood = None,
      the_geom = None\<rparr>"

definition sample_argument :: Argument where
  "sample_argument =
     \<lparr>narrative = ''Based on these sales, market value is $950,000. Requesting reduction.'',
      declaredMarketValue = 950000, arg_tone = concise\<rparr>"

text \<open>
  A case with a comparable that is not included, whose included prices have a mean that is
  not a whole number; the same case with the argument drafted; the sample case with every
  comparable excluded and an argument; a case whose two prices are the doubles nearest
  to 553880.36 and 1897794.64; and a case whose two prices, 524289 and \<open>2^20 - 1 / 2^33\<close>,
  add up to a tie between two doubles.
\<close>

definition mixed_state :: AppState where
  "mixed_state =
     \<lparr>property = Some sample_property,
      comps = [sample_comp ''comp-0595140'' 900001 True,
               sample_comp ''comp-0595141'' 5000000 False,
               (sample_comp ''comp-0595142'' 1000000 True)
                 \<lparr>comp_address := ''2100 JACKSON ST'', comp_sqft := None,
                  comp_notes := ''Dwelling''\<rparr>],
      argument = None\<rparr>"

definition drafted_mixed_state :: AppState where
  "drafted_mixed_state = mixed_state\<lparr>argument := Some sample_argument\<rparr>"

definition none_included_state :: AppState where
  "none_included_state =
     \<lparr>property = Some sample_property,
      comps = [sample_comp ''comp-0595140'' 900000 False,
               sample_comp ''comp-0595141'' 1000000 False],
      argument = Some sample_argument\<rparr>"

definition cents_state :: AppState where
  "cents_state =
     \<lparr>property = Some sample_property,
      comps = [sample_comp ''comp-0595140'' (4757796064193413 / 8589934592) True,
               sample_comp ''comp-0595141'' (8150965913324093 / 4294967296) True],
      argument = None\<rparr>"

definition tie_state :: AppState where
  "tie_state =
     \<lparr>property = Some sample_property,
      comps = [sample_comp ''comp-0595140'' 524289 True,
               sample_comp ''comp-0595141'' (9007199254740991 / 8589934592) True],
      argument = None\<rparr>"

text \<open>The effective radius that a result of find-comps reports, if it reports one.\<close>

definition used_radius :: "error + CompWorkspace \<Rightarrow> real option" where
  "used_radius res =
     (case res of
        Inl e \<Rightarrow> None
      | Inr w \<Rightarrow> (case ws_output w of FoundComps n u e r t s \<Rightarrow> Some u | _ \<Rightarrow> None))"

text \<open>The sample runtime one minute later.\<close>

definition later_js :: js_runtime where
  "later_js = sample_js\<lparr>dateNow := 1767225660000\<rparr>"

text \<open>Two record sources: one that has a row from 1000 metres on, and one whose only row
  carries no parcel number.\<close>

definition sample_source :: "real \<Rightarrow> string + SFRecord list" where
  "sample_source metres =
     (if metres < 1000 then Inr [] else Inr [sample_record (Some ''0595150'')])"

definition unkeyed_source :: "real \<Rightarrow> string + SFRecord list" where
  "unkeyed_source metres = Inr [sample_record None]"

section \<open>Auxiliary facts\<close>

subsection \<open>Rounding to a double\<close>

lemmas fl_eval = fl_def exponent_def round_even_def bit_length.simps

lemma bit_length_bounds: "0 < n \<Longrightarrow> 2 ^ (bit_length n - 1) \<le> n \<and> n < 2 ^ bit_length n"
proof (induction n rule: bit_length.induct)
  case (1 n)
  show ?case
  proof (cases "n div 2 = 0")
    case True
    with 1(2) have "n = 1" by (simp add: div_eq_0_iff) 
    then show ?thesis by (simp add: bit_length.simps)
  next
    case False
    with 1 have ih: "2 ^ (bit_length (n div 2) - 1) \<le> n div 2" "n div 2 < 2 ^ bit_length (n div 2)"
      by simp_all
    from False have pos: "0 < bit_length (n div 2)"
      by (simp add: bit_length.simps [of "n div 2"])
    have b: "bit_length n = Suc (bit_length (n div 2))"
      using 1(2) by (simp add: bit_length.simps [of n])
    from pos have e: "2 ^ bit_length (n div 2) = 2 * (2::nat) ^ (bit_length (n div 2) - 1)"
      by (cases "bit_length (n div 2)") simp_all
    have "2 ^ (bit_length n - 1) \<le> n"
      using ih(1) e by (simp add: b)
    moreover have "n < 2 ^ bit_length n"
      using ih(2) by (simp add: b) 
    ultimately show ?thesis by simp
  qed
qed

lemma bit_length_pos: "0 < n \<Longrightarrow> 0 < bit_length n"
  by (simp add: bit_length.simps [of n])
lemma round_even_error: "\<bar>of_int (round_even y) - y\<bar> \<le> 1 / 2"
  unfolding round_even_def by (auto simp: abs_le_iff)

lemma exponent_lower: "x \<noteq> 0 \<Longrightarrow> 2 powi exponent x \<le> \<bar>x\<bar>"
proof (cases "1 \<le> \<bar>x\<bar>")
  case True
  define n where "n = nat \<lfloor>\<bar>x\<bar>\<rfloor>"
  from True have n: "0 < n" unfolding n_def by simp
  have a: "real n \<le> \<bar>x\<bar>" unfolding n_def by simp
  have "2 ^ (bit_length n - 1) \<le> n" using bit_length_bounds [OF n] by simp
  then have "real (2 ^ (bit_length n - 1)) \<le> real n" by (rule of_nat_mono)
  then have b: "(2::real) ^ (bit_length n - 1) \<le> real n" by simp
  have "exponent x = int (bit_length n - 1)"
    using True bit_length_pos [OF n] by (simp add: exponent_def n_def)
  then have "2 powi exponent x = (2::real) ^ (bit_length n - 1)" by (simp add: power_int_def)
  with a b show ?thesis by linarith
next
  case False
  assume nz: "x \<noteq> 0"
  define m where "m = nat (\<lceil>1 / \<bar>x\<bar>\<rceil> - 1)"
  from False nz have big: "1 < 1 / \<bar>x\<bar>" by simp
  then have c: "2 \<le> \<lceil>1 / \<bar>x\<bar>\<rceil>" by linarith
  then have m: "0 < m" unfolding m_def by simp
  have "1 / \<bar>x\<bar> \<le> of_int \<lceil>1 / \<bar>x\<bar>\<rceil>" by simp
  also have "\<dots> = real m + 1"
  proof -
    define k where "k = \<lceil>1 / \<bar>x\<bar>\<rceil>"
    have "2 \<le> k" using c unfolding k_def .
    then have "of_int k = real (nat (k - 1)) + 1" by simp
    then show ?thesis unfolding k_def m_def .
  qed
  also have "real m + 1 \<le> 2 ^ bit_length m"
  proof -
    have "m + 1 \<le> 2 ^ bit_length m" using bit_length_bounds [OF m] by simp
    then have "real (m + 1) \<le> real (2 ^ bit_length m)" by (rule of_nat_mono)
    then show ?thesis by simp
  qed
  finally have "1 / \<bar>x\<bar> \<le> 2 ^ bit_length m" .
  then have "1 / 2 ^ bit_length m \<le> \<bar>x\<bar>"
    using nz by (simp add: field_simps)
  moreover have "exponent x = - int (bit_length m)"
    using False by (simp add: exponent_def m_def)
  then have "2 powi exponent x = 1 / (2::real) ^ bit_length m"
    by (simp add: power_int_minus field_simps)
  ultimately show ?thesis by simp
qed

lemma fl_error: "\<bar>fl x - x\<bar> \<le> \<bar>x\<bar> / 2 ^ 53"
proof (cases "x = 0")
  case True
  then show ?thesis by (simp add: fl_def)
next
  case False
  define s :: real where "s = 2 powi (exponent x - 52)"
  have s: "0 < s" unfolding s_def by simp
  have "fl x - x = (of_int (round_even (x / s)) - x / s) * s"
    using False s by (simp add: fl_def s_def field_simps)
  then have "\<bar>fl x - x\<bar> = \<bar>of_int (round_even (x / s)) - x / s\<bar> * s"
    using s by (simp add: abs_mult)
  also have "\<dots> \<le> 1 / 2 * s"
    using round_even_error [of "x / s"] s by (intro mult_right_mono) simp_all
  also have "1 / 2 * s = 2 powi exponent x / 2 ^ 53"
    unfolding s_def by (simp add: power_int_diff)
  also have "\<dots> \<le> \<bar>x\<bar> / 2 ^ 53"
    using exponent_lower [OF False] by (simp add: divide_right_mono)
  finally show ?thesis .
qed

lemma exponent_upper: "x \<noteq> 0 \<Longrightarrow> \<bar>x\<bar> < 2 powi (exponent x + 1)"
proof (cases "1 \<le> \<bar>x\<bar>")
  case True
  define n where "n = nat \<lfloor>\<bar>x\<bar>\<rfloor>"
  from True have n: "0 < n" unfolding n_def by simp
  have "\<bar>x\<bar> < of_int \<lfloor>\<bar>x\<bar>\<rfloor> + 1" by linarith
  also have "of_int \<lfloor>\<bar>x\<bar>\<rfloor> = real n" unfolding n_def by simp
  finally have a: "\<bar>x\<bar> < real n + 1" .
  have "n + 1 \<le> 2 ^ bit_length n" using bit_length_bounds [OF n] by simp
  then have "real (n + 1) \<le> real (2 ^ bit_length n)" by (rule of_nat_mono)
  then have b: "real n + 1 \<le> 2 ^ bit_length n" by simp
  have "exponent x + 1 = int (bit_length n)"
    using True by (simp add: exponent_def n_def)
  then have "2 powi (exponent x + 1) = (2::real) ^ bit_length n" by simp
  with a b show ?thesis by linarith
next
  case False
  assume nz: "x \<noteq> 0"
  define k where "k = \<lceil>1 / \<bar>x\<bar>\<rceil>"
  define m where "m = nat (k - 1)"
  from False nz have big: "1 < 1 / \<bar>x\<bar>" by simp
  then have c: "2 \<le> k" unfolding k_def by linarith
  then have m: "0 < m" unfolding m_def by simp
  have "of_int k < 1 / \<bar>x\<bar> + 1" unfolding k_def by linarith
  moreover have "of_int k = real m + 1" using c unfolding m_def by simp
  ultimately have lt: "real m < 1 / \<bar>x\<bar>" by simp
  have "2 ^ (bit_length m - 1) \<le> m" using bit_length_bounds [OF m] by simp
  then have "real (2 ^ (bit_length m - 1)) \<le> real m" by (rule of_nat_mono)
  then have "(2::real) ^ (bit_length m - 1) \<le> real m" by simp
  with lt have "(2::real) ^ (bit_length m - 1) < 1 / \<bar>x\<bar>" by linarith
  then have x: "\<bar>x\<bar> < 1 / 2 ^ (bit_length m - 1)"
    using nz by (simp add: field_simps)
  have "exponent x + 1 = - int (bit_length m - 1)"
    using False bit_length_pos [OF m] by (simp add: exponent_def m_def k_def)
  then have "2 powi (exponent x + 1) = 1 / (2::real) ^ (bit_length m - 1)"
    by (simp add: power_int_minus field_simps)
  with x show ?thesis by simp
qed

text \<open>Sample roundings: the doubles of 0.1 and of 1609.34, a tie that goes down to the even
  significand and one that goes up to it, and a small number.\<close>

lemma fl_samples:
  "fl (1 / 10) = 3602879701896397 / 36028797018963968"
  "fl 1609.34 = 7077952172180111 / 4398046511104"
  "fl (2 ^ 53 + 1) = 2 ^ 53"
  "fl (2 ^ 53 + 3) = 2 ^ 53 + 4"
  "fl (1 / 3) = 6004799503160661 / 18014398509481984"
  "fl (- 5 / 2) = - 5 / 2"
  by (simp_all add: fl_eval)

lemma round_even_minus: "round_even (- y) = - round_even y"
proof (cases "y \<in> \<int>")
  case True
  then obtain k where "y = of_int k" by (auto elim: Ints_cases)
  then show ?thesis by (simp add: round_even_def)
next
  case False
  then have ne: "y \<noteq> of_int \<lfloor>y\<rfloor>" by (metis Ints_of_int)
  then have f: "\<lfloor>- y\<rfloor> = - \<lfloor>y\<rfloor> - 1"
    by (simp add: floor_minus ceiling_altdef)
  have "of_int \<lfloor>y\<rfloor> \<le> y" and "y < of_int \<lfloor>y\<rfloor> + 1" by linarith+
  with ne have fr: "0 < y - of_int \<lfloor>y\<rfloor>" "y - of_int \<lfloor>y\<rfloor> < 1" by linarith+
  show ?thesis
    unfolding round_even_def f using fr by auto
qed

lemma exponent_minus: "exponent (- x) = exponent x"
  by (simp add: exponent_def)

lemma fl_minus: "fl (- x) = - fl x"
  by (simp add: fl_def exponent_minus round_even_minus)

lemma fl_lower: "0 \<le> x \<Longrightarrow> x * (1 - 1 / 2 ^ 53) \<le> fl x"
proof -
  assume x: "0 \<le> x"
  define u :: real where "u = 1 / 2 ^ 53"
  have "\<bar>fl x - x\<bar> \<le> x * u" using fl_error [of x] x by (simp add: u_def)
  then have "x - x * u \<le> fl x" by linarith
  then have "x * (1 - u) \<le> fl x" by (simp add: algebra_simps)
  then show ?thesis unfolding u_def .
qed

lemma fl_upper: "0 \<le> x \<Longrightarrow> fl x \<le> x * (1 + 1 / 2 ^ 53)"
proof -
  assume x: "0 \<le> x"
  define u :: real where "u = 1 / 2 ^ 53"
  have "\<bar>fl x - x\<bar> \<le> x * u" using fl_error [of x] x by (simp add: u_def)
  then have "fl x \<le> x + x * u" by linarith
  then have "fl x \<le> x * (1 + u)" by (simp add: algebra_simps)
  then show ?thesis unfolding u_def .
qed

lemma fl_nonneg: "0 \<le> x \<Longrightarrow> 0 \<le> fl x"
proof -
  assume x: "0 \<le> x"
  have "0 \<le> x * (1 - 1 / 2 ^ 53)" using x by (intro mult_nonneg_nonneg) simp_all
  with fl_lower [OF x] show ?thesis by linarith
qed

lemma fl_pos: "0 < x \<Longrightarrow> 0 < fl x"
proof -
  assume x: "0 < x"
  have "0 < x * (1 - 1 / 2 ^ 53)" using x by (intro mult_pos_pos) simp_all
  with fl_lower [of x] x show ?thesis by linarith
qed

lemma fl_nonpos: "x \<le> 0 \<Longrightarrow> fl x \<le> 0"
proof -
  assume x: "x \<le> 0"
  define u :: real where "u = 1 / 2 ^ 53"
  have u: "0 \<le> 1 - u" by (simp add: u_def)
  have "\<bar>fl x - x\<bar> \<le> - x * u" using fl_error [of x] x by (simp add: u_def)
  then have "fl x \<le> x - x * u" by linarith
  then have "fl x \<le> x * (1 - u)" by (simp add: algebra_simps)
  moreover have "x * (1 - u) \<le> 0" using x u by (rule mult_nonpos_nonneg)
  ultimately show ?thesis by linarith
qed

text \<open>Three roundings in a row, on a value that is not negative.\<close>

lemma three_roundings:
  fixes x a :: real
  assumes x: "0 \<le> x" and a: "0 < a"
  shows "x / a * 100 * (1 - 1 / 2 ^ 51) \<le> fl (fl (fl x / a) * 100)"
    and "fl (fl (fl x / a) * 100) \<le> x / a * 100 * (1 + 1 / 2 ^ 51)"
proof -
  define u :: real where "u = 1 / 2 ^ 53"
  have u: "0 < u" "u < 1" by (simp_all add: u_def)
  define d where "d = fl x"
  define q where "q = fl (d / a)"
  define g where "g = fl (q * 100)"
  have d0: "0 \<le> d" unfolding d_def by (rule fl_nonneg [OF x])
  then have da0: "0 \<le> d / a" using a by simp
  then have q0: "0 \<le> q" unfolding q_def by (rule fl_nonneg)
  then have q1: "0 \<le> q * 100" by simp
  have xa0: "0 \<le> x / a" using x a by simp
  have dl: "x * (1 - u) \<le> d" and du: "d \<le> x * (1 + u)"
    unfolding d_def u_def by (rule fl_lower [OF x], rule fl_upper [OF x])
  have ql: "d / a * (1 - u) \<le> q" and qu: "q \<le> d / a * (1 + u)"
    unfolding q_def u_def by (rule fl_lower [OF da0], rule fl_upper [OF da0])
  have gl: "q * 100 * (1 - u) \<le> g" and gu: "g \<le> q * 100 * (1 + u)"
    unfolding g_def u_def by (rule fl_lower [OF q1], rule fl_upper [OF q1])
  have dal: "x / a * (1 - u) \<le> d / a"
    using divide_right_mono [OF dl, of a] a by simp
  have dau: "d / a \<le> x / a * (1 + u)"
    using divide_right_mono [OF du, of a] a by simp
  have "x / a * (1 - u) * (1 - u) \<le> d / a * (1 - u)"
    using dal u by (intro mult_right_mono) simp_all
  with ql have ql2: "x / a * (1 - u) * (1 - u) \<le> q" by linarith
  have "d / a * (1 + u) \<le> x / a * (1 + u) * (1 + u)"
    using dau u by (intro mult_right_mono) simp_all
  with qu have qu2: "q \<le> x / a * (1 + u) * (1 + u)" by linarith
  have "x / a * (1 - u) * (1 - u) * (100 * (1 - u)) \<le> q * (100 * (1 - u))"
    using ql2 u by (intro mult_right_mono) simp_all
  with gl have gl3: "x / a * 100 * ((1 - u) * (1 - u) * (1 - u)) \<le> g"
    by (simp add: mult_ac)
  have "q * (100 * (1 + u)) \<le> x / a * (1 + u) * (1 + u) * (100 * (1 + u))"
    using qu2 u by (intro mult_right_mono) simp_all
  with gu have gu3: "g \<le> x / a * 100 * ((1 + u) * (1 + u) * (1 + u))"
    by (simp add: mult_ac)
  have el: "1 - 1 / 2 ^ 51 \<le> (1 - u) * (1 - u) * (1 - u)"
    by (simp add: u_def)
  have eu: "(1 + u) * (1 + u) * (1 + u) \<le> 1 + 1 / 2 ^ 51"
    by (simp add: u_def)
  have G0: "0 \<le> x / a * 100" using xa0 by (intro mult_nonneg_nonneg) simp_all
  have "x / a * 100 * (1 - 1 / 2 ^ 51) \<le> x / a * 100 * ((1 - u) * (1 - u) * (1 - u))"
    by (rule mult_left_mono [OF el G0])
  with gl3 show "x / a * 100 * (1 - 1 / 2 ^ 51) \<le> fl (fl (fl x / a) * 100)"
    unfolding g_def q_def d_def by linarith
  have "x / a * 100 * ((1 + u) * (1 + u) * (1 + u)) \<le> x / a * 100 * (1 + 1 / 2 ^ 51)"
    by (rule mult_left_mono [OF eu G0])
  with gu3 show "fl (fl (fl x / a) * 100) \<le> x / a * 100 * (1 + 1 / 2 ^ 51)"
    unfolding g_def q_def d_def by linarith
qed

lemma three_roundings_nonpos:
  fixes x a :: real
  assumes x: "x \<le> 0" and a: "0 < a"
  shows "fl (fl (fl x / a) * 100) \<le> 0"
proof -
  have "fl x \<le> 0" by (rule fl_nonpos [OF x])
  then have "fl x / a \<le> 0" using a by (simp add: divide_le_0_iff)
  then have "fl (fl x / a) \<le> 0" by (rule fl_nonpos)
  then have "fl (fl x / a) * 100 \<le> 0" by simp
  then show ?thesis by (rule fl_nonpos)
qed

text \<open>Whole numbers below \<open>2^53\<close> are doubles, and \<open>Math.round\<close> of a rounded quotient of
  whole numbers is that of the exact quotient as long as the dividend is below \<open>2^52\<close>.\<close>

lemma round_even_of_int: "round_even (of_int k) = k"
  by (simp add: round_even_def)

lemma round_even_ge: "of_int k \<le> y \<Longrightarrow> k \<le> round_even y"
proof -
  assume "of_int k \<le> y"
  then have "k \<le> \<lfloor>y\<rfloor>" by (simp add: le_floor_iff)
  moreover have "\<lfloor>y\<rfloor> \<le> round_even y" by (simp add: round_even_def)
  ultimately show ?thesis by simp
qed

lemma round_even_less: "y < of_int k - 1 / 2 \<Longrightarrow> round_even y < k"
proof -
  assume a: "y < of_int k - 1 / 2"
  then have "y < of_int k" by simp
  then have f: "\<lfloor>y\<rfloor> < k" by (simp add: floor_less_iff)
  show ?thesis
  proof (cases "\<lfloor>y\<rfloor> = k - 1")
    case True
    then have "of_int \<lfloor>y\<rfloor> = (of_int k :: real) - 1" by simp
    with a have "y - of_int \<lfloor>y\<rfloor> < 1 / 2" by linarith
    then have "round_even y = \<lfloor>y\<rfloor>" by (simp add: round_even_def)
    with f show ?thesis by simp
  next
    case False
    with f have "\<lfloor>y\<rfloor> + 1 < k" by simp
    moreover have "round_even y \<le> \<lfloor>y\<rfloor> + 1" by (simp add: round_even_def)
    ultimately show ?thesis by simp
  qed
qed

lemma exponent_below:
  assumes "0 < x" and "x < 2 ^ m"
  shows "exponent x < int m"
proof (rule ccontr)
  assume "\<not> exponent x < int m"
  then have "int m \<le> exponent x" by simp
  then have "(2::real) powi int m \<le> 2 powi exponent x"
    by (intro power_int_increasing) simp_all
  moreover have "2 powi exponent x \<le> x"
    using exponent_lower [of x] assms(1) by simp
  ultimately have "(2::real) ^ m \<le> x" by simp
  with assms(2) show False by simp
qed

lemma fl_of_nat:
  assumes "n < 2 ^ 53"
  shows "fl (real n) = real n"
proof (cases "n = 0")
  case True
  then show ?thesis by (simp add: fl_def)
next
  case False
  define x where "x = real n"
  define e where "e = exponent x"
  have x: "0 < x" using False by (simp add: x_def)
  have "real n < real (2 ^ 53)" using assms by (rule of_nat_less_iff [THEN iffD2])
  then have "x < 2 ^ 53" by (simp add: x_def)
  from exponent_below [OF x this] have e: "e < 53" by (simp add: e_def)
  define k where "k = nat (52 - e)"
  have k: "e - 52 = - int k" using e by (simp add: k_def)
  have c: "(2::real) powi (e - 52) = 1 / 2 ^ k"
    unfolding k by (simp add: power_int_minus field_simps)
  have "x / 2 powi (e - 52) = of_int (int n * 2 ^ k)"
    unfolding c by (simp add: x_def)
  then have "round_even (x / 2 powi (e - 52)) = int n * 2 ^ k"
    by (simp only: round_even_of_int)
  then have "fl x = of_int (int n * 2 ^ k) * (1 / 2 ^ k)"
    using x by (simp add: fl_def e_def [symmetric] c)
  then show ?thesis by (simp add: x_def)
qed

lemma foldl_fl_exact:
  assumes "\<forall>x \<in> set xs. x \<in> \<nat>" and "a \<in> \<nat>" and "a + sum_list xs < 2 ^ 53"
  shows "foldl (\<lambda>s x. fl (s + x)) a xs = a + sum_list xs"
  using assms
proof (induction xs arbitrary: a)
  case Nil
  then show ?case by simp
next
  case (Cons y ys)
  from Cons.prems(1) have y: "y \<in> \<nat>" and ys: "\<forall>x \<in> set ys. x \<in> \<nat>" by simp_all
  from ys have r: "0 \<le> sum_list ys"
    by (intro sum_list_nonneg) (auto simp: Nats_def)
  from y Cons.prems(2) have ay: "a + y \<in> \<nat>" by (rule_tac Nats_add)
  then obtain n where n: "a + y = real n" by (auto simp: Nats_def)
  from Cons.prems(3) r have "a + y < 2 ^ 53" by simp
  then have "real n < real (2 ^ 53)" by (simp add: n)
  then have "n < 2 ^ 53" by (simp only: of_nat_less_iff)
  then have f: "fl (a + y) = a + y" unfolding n by (rule fl_of_nat)
  have "foldl (\<lambda>s x. fl (s + x)) (a + y) ys = (a + y) + sum_list ys"
    using ys ay Cons.prems(3) by (intro Cons.IH) (simp_all add: add.assoc)
  then show ?case by (simp add: f add.assoc)
qed

lemma fl_quotient_round:
  fixes S n :: nat
  assumes n: "0 < n" and S: "S < 2 ^ 52"
  shows "\<lfloor>fl (real S / real n) + 1 / 2\<rfloor> = \<lfloor>real S / real n + 1 / 2\<rfloor>"
proof (cases "S = 0")
  case True
  then show ?thesis by (simp add: fl_def)
next
  case False
  define x where "x = real S / real n"
  define e where "e = exponent x"
  define M where "M = \<lfloor>x + 1 / 2\<rfloor>"
  have x: "0 < x" using False n by (simp add: x_def)
  have xn: "x * real n = real S" using n by (simp add: x_def)
  have "1 \<le> real n" using n by simp
  then have "x * 1 \<le> x * real n" using x by (intro mult_left_mono) simp_all
  then have "x \<le> real S" using xn by simp
  moreover have "real S < real (2 ^ 52)" using S by (rule of_nat_less_iff [THEN iffD2])
  then have S': "real S < 2 ^ 52" by simp
  ultimately have "x < 2 ^ 52" by simp
  from exponent_below [OF x this] have e: "e < 52" by (simp add: e_def)
  define k where "k = nat (51 - e)"
  define h :: int where "h = 2 ^ k"
  have h: "0 < h" by (simp add: h_def)
  have k: "e - 52 = - int (Suc k)" using e by (simp add: k_def)
  have "(2::real) powi (- int (Suc k)) = inverse (2 ^ Suc k)"
    by (simp only: power_int_minus power_int_of_nat)
  then have c: "(2::real) powi (e - 52) = 1 / (2 * of_int h)"
    unfolding k h_def by (simp add: field_simps)
  have lo: "(2::real) powi e \<le> x"
    using exponent_lower [of x] x by (simp add: e_def)
  have "(2::real) powi (52 + (e - 52)) = 2 powi 52 * 2 powi (e - 52)"
    by (rule power_int_add) simp
  then have pe: "(2::real) powi e = 2 ^ 52 / (2 * of_int h)"
    unfolding c by simp
  have "real n * 2 powi e \<le> real n * x"
    using lo by (intro mult_left_mono) simp_all
  also have "\<dots> = real S" using xn by (simp add: mult.commute)
  also have "\<dots> < 2 ^ 52" by (rule S')
  finally have "real n * (2 ^ 52 / (2 * of_int h)) < 2 ^ 52" unfolding pe .
  then have nh: "real n < 2 * of_int h"
    using h by (simp add: field_simps)
  define y where "y = x * (2 * of_int h)"
  have flx: "fl x = of_int (round_even y) / (2 * of_int h)"
    using x by (simp add: fl_def e_def [symmetric] c y_def)
  have M1: "of_int M \<le> x + 1 / 2" and M2: "x + 1 / 2 < of_int M + 1"
    unfolding M_def by linarith+
  have low: "of_int M \<le> fl x + 1 / 2"
  proof -
    have "(of_int M - 1 / 2) * (2 * of_int h) \<le> x * (2 * of_int h)"
      using M1 h by (intro mult_right_mono) simp_all
    then have "of_int ((2 * M - 1) * h) \<le> y"
      by (simp add: y_def algebra_simps)
    then have "(2 * M - 1) * h \<le> round_even y" by (rule round_even_ge)
    then have "real_of_int ((2 * M - 1) * h) \<le> of_int (round_even y)"
      by (simp only: of_int_le_iff)
    then have "of_int ((2 * M - 1) * h) / (2 * of_int h) \<le> fl x"
      unfolding flx using h by (intro divide_right_mono) simp_all
    moreover have "real_of_int ((2 * M - 1) * h) / (2 * of_int h) = of_int M - 1 / 2"
      using h by (simp add: field_simps)
    ultimately show ?thesis by simp
  qed
  have upp: "fl x + 1 / 2 < of_int M + 1"
  proof -
    from M2 have "x * real n < (of_int M + 1 / 2) * real n"
      using n by (intro mult_strict_right_mono) simp_all
    then have "2 * real S < (2 * of_int M + 1) * real n"
      unfolding xn by (simp add: algebra_simps)
    then have "real_of_int (2 * int S) < real_of_int ((2 * M + 1) * int n)"
      by simp
    then have "2 * int S < (2 * M + 1) * int n" by (simp only: of_int_less_iff)
    then have "2 * int S + 1 \<le> (2 * M + 1) * int n" by simp
    then have "real_of_int (2 * int S + 1) \<le> real_of_int ((2 * M + 1) * int n)"
      by (simp only: of_int_le_iff)
    then have i: "2 * real S + 1 \<le> (2 * of_int M + 1) * real n" by simp
    have "y * real n = real S * (2 * of_int h)"
      unfolding y_def using xn by (simp add: mult_ac)
    then have "2 * (y * real n) = 2 * real S * (2 * of_int h)" by simp
    also have "\<dots> \<le> ((2 * of_int M + 1) * real n - 1) * (2 * of_int h)"
      using i h by (intro mult_right_mono) simp_all
    also have "\<dots> = 2 * (of_int ((2 * M + 1) * h) * real n) - 2 * of_int h"
      by (simp add: algebra_simps)
    also have "\<dots> < 2 * (of_int ((2 * M + 1) * h) * real n) - real n"
      using nh by simp
    finally have "y * real n < (of_int ((2 * M + 1) * h) - 1 / 2) * real n"
      by (simp add: algebra_simps)
    then have "y < of_int ((2 * M + 1) * h) - 1 / 2"
      using n by (simp only: mult_less_cancel_right_pos of_nat_0_less_iff)
    then have "round_even y < (2 * M + 1) * h" by (rule round_even_less)
    then have "real_of_int (round_even y) < of_int ((2 * M + 1) * h)"
      by (simp only: of_int_less_iff)
    then have "fl x < of_int ((2 * M + 1) * h) / (2 * of_int h)"
      unfolding flx using h by (intro divide_strict_right_mono) simp_all
    moreover have "real_of_int ((2 * M + 1) * h) / (2 * of_int h) = of_int M + 1 / 2"
      using h by (simp add: field_simps)
    ultimately show ?thesis by simp
  qed
  from low upp have "\<lfloor>fl x + 1 / 2\<rfloor> = M" by (simp add: floor_unique)
  then show ?thesis unfolding M_def x_def .
qed

subsection \<open>Searching a list\<close>

lemma findIndex_None: "(findIndex P xs = None) = (\<forall>x \<in> set xs. \<not> P x)"
  by (induction xs) auto

lemma findIndex_Some:
  "findIndex P xs = Some i \<Longrightarrow> i < length xs \<and> P (xs ! i) \<and> (\<forall>j < i. \<not> P (xs ! j))"
proof (induction xs arbitrary: i)
  case Nil
  then show ?case by simp
next
  case (Cons x xs)
  show ?case
  proof (cases "P x")
    case True
    with Cons.prems show ?thesis by simp
  next
    case False
    with Cons.prems obtain k where k: "findIndex P xs = Some k" "i = Suc k"
      by auto
    from Cons.IH [OF k(1)] False k(2) show ?thesis
      by (auto simp: nth_Cons split: nat.splits)
  qed
qed

lemma findIndex_update_keep:
  "i < length xs \<Longrightarrow> P y = P (xs ! i) \<Longrightarrow> findIndex P (xs[i := y]) = findIndex P xs"
proof (induction xs arbitrary: i)
  case Nil
  then show ?case by simp
next
  case (Cons x xs)
  then show ?case by (cases i) auto
qed

subsection \<open>The steps of manage-comps\<close>

lemma steps_other:
  "act \<noteq> Add \<Longrightarrow> add_step js act inp st = Inr st"
  "act \<noteq> Update \<Longrightarrow> update_step act inp st = Inr st"
  "act \<noteq> Remove \<Longrightarrow> remove_step act inp st = Inr st"
  "act \<noteq> Toggle \<Longrightarrow> toggle_step act inp st = Inr st"
  by (simp_all add: add_step_def update_step_def remove_step_def toggle_step_def)


lemma flip_included_twice:
  "idx < length (comps st) \<Longrightarrow> flip_included idx (flip_included idx st) = st"
  by (simp add: flip_included_def)

lemma toggle_step_flip:
  assumes g: "given_id inp = Some i"
    and f: "findIndex (\<lambda>x. comp_id x = i) (comps st) = Some idx"
  shows "toggle_step Toggle inp st = Inr (flip_included idx st)"
  by (simp add: toggle_step_def g f flip_included_def)

lemma findIndex_flip:
  assumes "idx < length (comps st)"
  shows "findIndex (\<lambda>x. comp_id x = i) (comps (flip_included idx st))
         = findIndex (\<lambda>x. comp_id x = i) (comps st)"
  using assms by (simp add: flip_included_def findIndex_update_keep)

subsection \<open>The mean price\<close>

lemma avg_price_map:
  "avg_price cs = fl (foldl (\<lambda>s x. fl (s + x)) 0 (map salePrice cs) / real (length cs))"
  by (simp add: avg_price_def foldl_map)

subsection \<open>Joining lines\<close>

lemma join_append:
  "xs \<noteq> [] \<Longrightarrow> ys \<noteq> [] \<Longrightarrow> join sep (xs @ ys) = join sep xs @ sep @ join sep ys"
proof (induction sep xs rule: join.induct)
  case (1 sep)
  then show ?case by simp
next
  case (2 sep x)
  then show ?case by (cases ys) simp_all
next
  case (3 sep x y ys)
  then show ?case by simp
qed

lemma join_concat: "xs \<noteq> [] \<Longrightarrow> sep @ join sep xs = concat (map (\<lambda>x. sep @ x) xs)"
  by (induction sep xs rule: join.induct) simp_all

lemma join_nonempty: "xs \<noteq> [] \<Longrightarrow> hd xs \<noteq> [] \<Longrightarrow> join sep xs \<noteq> []"
  by (induction sep xs rule: join.induct) auto

subsection \<open>The lines of the packet\<close>

lemma comp_row_nonempty: "comp_row js c \<noteq> []"
  by (simp add: comp_row_def)

lemma compRows_nonempty: "incl \<noteq> [] \<Longrightarrow> compRows js incl \<noteq> []"
  unfolding compRows_def
  by (rule join_nonempty) (auto simp: comp_row_nonempty hd_map)

lemma packet_tail_nonempty: "filter (\<lambda>l. l \<noteq> []) (packet_tail js) = packet_tail js"
  by (simp add: packet_tail_def nl_def)

lemma packet_tail_not_Nil: "packet_tail js \<noteq> []"
  by (simp add: packet_tail_def)

lemma packet_mid_nonempty: "filter (\<lambda>l. l \<noteq> []) (packet_mid js a) = packet_mid js a"
  by (simp add: packet_mid_def nl_def)

lemma packet_mid_not_Nil: "packet_mid js a \<noteq> []"
  by (simp add: packet_mid_def)

lemma packet_head_filter_not_Nil: "filter (\<lambda>l. l \<noteq> []) (packet_head js p arg cs) \<noteq> []"
  by (simp add: packet_head_def Let_def)

lemma packet_document_shape:
  assumes "incl \<noteq> []"
  shows "\<exists>h m. buildPacketMarkdown js p incl arg cs avg
               = h @ concat (map (\<lambda>c. nl @ comp_row js c) incl) @ m @ narrative arg
                 @ nl @ join nl (packet_tail js)"
proof -
  define H where "H = filter (\<lambda>l. l \<noteq> []) (packet_head js p arg cs)"
  define M where "M = packet_mid js avg"
  define T where "T = packet_tail js"
  define N where "N = filter (\<lambda>l. l \<noteq> []) [narrative arg]"
  define R where "R = compRows js incl"
  have H: "H \<noteq> []" and M: "M \<noteq> []" and T: "T \<noteq> []"
    by (simp_all add: H_def M_def T_def packet_head_filter_not_Nil packet_mid_not_Nil
        packet_tail_not_Nil)
  have doc: "buildPacketMarkdown js p incl arg cs avg = join nl (H @ ([R] @ (M @ (N @ T))))"
    using compRows_nonempty [OF assms, of js]
    by (simp add: buildPacketMarkdown_def packet_tail_nonempty packet_mid_nonempty
        H_def M_def T_def N_def R_def)
  have rest: "\<exists>m. join nl (M @ (N @ T)) = m @ narrative arg @ nl @ join nl T"
  proof (cases "narrative arg = []")
    case True
    then have "N = []" by (simp add: N_def)
    then have "join nl (M @ (N @ T)) = join nl M @ narrative arg @ nl @ join nl T"
      using True by (simp add: join_append M T)
    then show ?thesis by blast
  next
    case False
    then have N: "N = [narrative arg]" by (simp add: N_def)
    have "join nl (M @ (N @ T)) = join nl M @ nl @ join nl (N @ T)"
      by (rule join_append) (simp_all add: M T)
    also have "join nl (N @ T) = join nl N @ nl @ join nl T"
      by (rule join_append) (simp_all add: N T)
    finally have "join nl (M @ (N @ T)) = (join nl M @ nl) @ narrative arg @ nl @ join nl T"
      by (simp add: N)
    then show ?thesis by blast
  qed
  then obtain m where m: "join nl (M @ (N @ T)) = m @ narrative arg @ nl @ join nl T" ..
  have rows: "nl @ R = concat (map (\<lambda>c. nl @ comp_row js c) incl)"
    unfolding R_def compRows_def using assms by (simp add: join_concat o_def)
  have "join nl (H @ ([R] @ (M @ (N @ T)))) = join nl H @ nl @ join nl ([R] @ (M @ (N @ T)))"
    by (rule join_append) (simp_all add: H)
  also have "join nl ([R] @ (M @ (N @ T))) = join nl [R] @ nl @ join nl (M @ (N @ T))"
    by (rule join_append) (simp_all add: M)
  finally have "buildPacketMarkdown js p incl arg cs avg
        = join nl H @ (nl @ R) @ (nl @ m) @ narrative arg @ nl @ join nl T"
    by (simp add: doc m)
  then show ?thesis unfolding rows T_def by blast
qed

lemma comp_row_text:
  "nl @ comp_row js c =
     CHR 0x0A
     # ''| '' @ comp_address c @ '' | '' @ saleDate c @ '' | $''
       @ toLocaleStringUS js (salePrice c) @ '' | ''
       @ (case comp_sqft c of None \<Rightarrow> ''NaN'' | Some v \<Rightarrow> toLocaleString js v) @ '' | ''
       @ (case comp_beds c of None \<Rightarrow> ''NaN'' | Some v \<Rightarrow> numToString js v) @ ''/''
       @ (case comp_baths c of None \<Rightarrow> ''NaN'' | Some v \<Rightarrow> numToString js v) @ '' | ''
       @ numToString js (distance c) @ '' mi | ''
       @ (if comp_notes c \<noteq> [] then comp_notes c else [CHR 0xE2, CHR 0x80, CHR 0x94]) @ '' |''"
  by (simp add: comp_row_def nl_def formatCurrency_def nan_string_def em_dash_def)

lemma packet_tail_text:
  "nl @ join nl (packet_tail js) =
     concat (map (\<lambda>l. CHR 0x0A # l)
       [CHR 0x0A # ''## Submission Checklist'',
        ''- [ ] Review all property details above for accuracy'',
        ''- [ ] Verify comparable sales are appropriate'',
        ''- [ ] Review value argument narrative'',
        ''- [ ] Submit via one of the methods below'',
        ''- [ ] Keep a copy of everything you submit'',
        CHR 0x0A # ''## How to Submit'',
        ''**Filing Window:** ''
          @ (if (getMonth js = 0 \<and> 2 \<le> getDate js) \<or> getMonth js = 1 \<or> getMonth js = 2
             then ''OPEN (Jan 2 '' @ [CHR 0xE2, CHR 0x80, CHR 0x93] @ '' Mar 31)''
             else ''CLOSED''),
        CHR 0x0A # ''### Online (Preferred)'',
        ''SF Assessor-Recorder Community Portal: https://sfassessor.org/community-portal'',
        CHR 0x0A # ''### By Mail'',
        ''Office of the Assessor-Recorder, City Hall, Room 190'',
        ''1 Dr. Carlton B. Goodlett Place, San Francisco, CA 94102'',
        CHR 0x0A # ''### By Fax'',
        ''(415) 554-7151'',
        CHR 0x0A # ''### By Email'',
        ''assessor@sfgov.org'',
        CHR 0x0A # ''## Important Reminders'',
        ''- Only the property **owner** may file (no third-party filings)'',
        ''- Comparable sales should be as close to January 1 as possible'',
        ''- Sales after March 31 will **not** be considered'',
        ''- Results are mailed in **July** via Notice of Assessed Value'',
        ''- If denied, you may file a formal Assessment Appeal (AAB)'',
        CHR 0x0A # ''---'',
        ''*This packet was prepared using OnlyAppeals. It provides informational and document-preparation support only ''
          @ [CHR 0xE2, CHR 0x80, CHR 0x94]
          @ '' not legal or tax advice. No guarantee of assessment reduction is made or implied.*''])"
  by (simp add: packet_tail_def nl_def isFilingWindowOpen_def em_dash_def en_dash_def)

subsection \<open>The radii and the search loop\<close>

lemma radii_sorted: "sorted_wrt (<) (radiiToTry r)"
  by (auto simp: radiiToTry_def)

lemma radii_set: "set (radiiToTry r) = {x \<in> {r, 0.75, 1.0, 1.5, 2.0}. r \<le> x}"
  by (auto simp: radiiToTry_def)

lemma radii_bound: "x \<in> set (radiiToTry r) \<Longrightarrow> x \<le> max r 2"
  by (auto simp: radiiToTry_def split: if_splits)

lemma search_radii_first:
  assumes "\<forall>x \<in> set pre. query (radiusMeters x) = Inr []"
    and "query (radiusMeters u) = Inr recs" and "recs \<noteq> []"
  shows "search_radii query (pre @ u # post) acc a = Inr (recs, u)"
  using assms by (induction pre arbitrary: acc a) auto

lemma search_radii_found:
  assumes "search_radii query rs acc a = Inr (recs, u)" and "recs \<noteq> []" and "acc = []"
  shows "\<exists>pre post. rs = pre @ u # post
           \<and> (\<forall>x \<in> set pre. query (radiusMeters x) = Inr [])
           \<and> query (radiusMeters u) = Inr recs"
  using assms
proof (induction rs arbitrary: acc a)
  case Nil
  then show ?case by simp
next
  case (Cons r rs)
  show ?case
  proof (cases "query (radiusMeters r)")
    case (Inl m)
    with Cons.prems show ?thesis by simp
  next
    case (Inr rr)
    show ?thesis
    proof (cases "rr = []")
      case True
      with Inr Cons.prems have "search_radii query rs [] r = Inr (recs, u)" by simp
      from Cons.IH [OF this Cons.prems(2)] obtain pre post where
        "rs = pre @ u # post" "\<forall>x \<in> set pre. query (radiusMeters x) = Inr []"
        "query (radiusMeters u) = Inr recs" by auto
      with Inr True have "r # rs = (r # pre) @ u # post
           \<and> (\<forall>x \<in> set (r # pre). query (radiusMeters x) = Inr [])
           \<and> query (radiusMeters u) = Inr recs" by simp
      then show ?thesis by blast
    next
      case False
      with Inr Cons.prems have "recs = rr" "u = r" by auto
      with Inr have "r # rs = [] @ u # rs
           \<and> (\<forall>x \<in> set []. query (radiusMeters x) = Inr [])
           \<and> query (radiusMeters u) = Inr recs" by simp
      then show ?thesis by blast
    qed
  qed
qed

subsection \<open>Merging new comparables\<close>

lemma merge_comps_idem: "merge_comps (merge_comps cs new) new = merge_comps cs new"
proof -
  have "filter (\<lambda>c. comp_id c \<notin> set (map comp_id (merge_comps cs new))) new = []"
    by (auto simp: merge_comps_def filter_empty_conv)
  then show ?thesis
    by (simp add: merge_comps_def [of "merge_comps cs new"] Let_def)
qed

lemma merge_comps_distinct:
  assumes "distinct (map comp_id cs)" and "distinct (map comp_id new)"
  shows "distinct (map comp_id (merge_comps cs new))"
proof -
  have "distinct (map comp_id (filter (\<lambda>c. comp_id c \<notin> set (map comp_id cs)) new))"
    using assms(2) by (rule distinct_map_filter)
  moreover have "set (map comp_id cs)
      \<inter> set (map comp_id (filter (\<lambda>c. comp_id c \<notin> set (map comp_id cs)) new)) = {}"
  proof (rule equals0I)
    fix y
    assume "y \<in> set (map comp_id cs)
      \<inter> set (map comp_id (filter (\<lambda>c. comp_id c \<notin> set (map comp_id cs)) new))"
    then have 1: "y \<in> comp_id ` set cs"
      and 2: "y \<in> comp_id ` {c \<in> set new. comp_id c \<notin> comp_id ` set cs}" by auto
    from 2 obtain c :: Comp where "c \<in> set new" "comp_id c \<notin> comp_id ` set cs" "y = comp_id c"
      by auto
    with 1 show False by simp
  qed
  ultimately show ?thesis
    using assms(1) by (simp add: merge_comps_def Let_def)
qed

lemma assessed_positive_clock:
  "parseFloat js2 = parseFloat js \<Longrightarrow> assessed_positive js2 = assessed_positive js"
  by (auto simp: assessed_positive_def assessed_of_def fun_eq_iff)

lemma record_to_comp_clock:
  assumes "parseFloat js2 = parseFloat js" and "parcel_number rec \<noteq> None"
  shows "record_to_comp js2 prop rec = record_to_comp js prop rec"
  using assms by (cases "parcel_number rec") (simp_all add: record_to_comp_def assessed_of_def)

lemma new_comps_clock:
  assumes "parseFloat js2 = parseFloat js" and "\<forall>rec \<in> set recs. parcel_number rec \<noteq> None"
  shows "new_comps js2 prop recs = new_comps js prop recs"
proof -
  have "map (record_to_comp js2 prop) (filter (assessed_positive js) recs)
        = map (record_to_comp js prop) (filter (assessed_positive js) recs)"
  proof (rule map_cong [OF refl])
    fix rec
    assume "rec \<in> set (filter (assessed_positive js) recs)"
    with assms(2) have "parcel_number rec \<noteq> None" by simp
    then show "record_to_comp js2 prop rec = record_to_comp js prop rec"
      by (rule record_to_comp_clock [OF assms(1)])
  qed
  then show ?thesis
    by (simp add: new_comps_def assessed_positive_clock [OF assms(1)])
qed

lemma record_to_comp_id:
  "parcel_number rec = Some pn \<Longrightarrow> comp_id (record_to_comp js prop rec) = ''comp-'' @ pn"
  by (simp add: record_to_comp_def Let_def)

lemma new_comps_ids:
  assumes "\<forall>rec \<in> set recs. parcel_number rec \<noteq> None" and "c \<in> set (new_comps js prop recs)"
  shows "\<exists>rec \<in> set recs. \<exists>pn. parcel_number rec = Some pn \<and> comp_id c = ''comp-'' @ pn"
proof -
  from assms(2) obtain rec where r: "rec \<in> set recs" "c = record_to_comp js prop rec"
    by (auto simp: new_comps_def)
  with assms(1) obtain pn where "parcel_number rec = Some pn" by auto
  with r show ?thesis by (auto simp: record_to_comp_id)
qed

lemma new_comps_distinct:
  assumes "\<forall>rec \<in> set recs. parcel_number rec \<noteq> None" and "distinct (map parcel_number recs)"
  shows "distinct (map comp_id (new_comps js prop recs))"
proof -
  have eq: "map comp_id (new_comps js prop recs)
            = map (\<lambda>pn. ''comp-'' @ the pn) (map parcel_number (filter (assessed_positive js) recs))"
    using assms(1) by (auto simp: new_comps_def record_to_comp_id)
  have d: "distinct (map parcel_number (filter (assessed_positive js) recs))"
    using assms(2) by (rule distinct_map_filter)
  have "inj_on (\<lambda>pn. ''comp-'' @ the pn) (set (map parcel_number (filter (assessed_positive js) recs)))"
  proof (rule inj_onI)
    fix a b
    assume a: "a \<in> set (map parcel_number (filter (assessed_positive js) recs))"
      and b: "b \<in> set (map parcel_number (filter (assessed_positive js) recs))"
      and e: "''comp-'' @ the a = ''comp-'' @ the b"
    from a assms(1) obtain x where "a = Some x" by auto
    moreover from b assms(1) obtain y where "b = Some y" by auto
    ultimately show "a = b" using e by simp
  qed
  with d have "distinct (map (\<lambda>pn. ''comp-'' @ the pn)
                     (map parcel_number (filter (assessed_positive js) recs)))"
    by (subst distinct_map) blast
  then show ?thesis unfolding eq .
qed

subsection \<open>What find-comps does to the state\<close>

lemma find_comps_found:
  assumes "property st = Some p" and "truthy_num (lat p)" and "truthy_num (lng p)"
    and "search_radii query (radiiToTry r) [] r = Inr (recs, u)" and "recs \<noteq> []"
  shows "find_comps js query r mb st
         = (Inr \<lparr>ws_property = Some p,
                 ws_comps = merge_comps (comps st) (new_comps js (Some p) recs),
                 ws_caseStrength = strength_for p (merge_comps (comps st) (new_comps js (Some p) recs)),
                 ws_output =
                   FoundComps (length (new_comps js (Some p) recs)) u (u > r) r
                     (length (merge_comps (comps st) (new_comps js (Some p) recs)))
                     (strength_for p (merge_comps (comps st) (new_comps js (Some p) recs)))\<rparr>,
            st\<lparr>comps := merge_comps (comps st) (new_comps js (Some p) recs)\<rparr>)"
  using assms by (simp add: find_comps_def Let_def)

lemma find_comps_state:
  "snd (find_comps js query r mb st) = st
   \<or> (\<exists>p recs u. property st = Some p \<and> truthy_num (lat p) \<and> truthy_num (lng p)
         \<and> search_radii query (radiiToTry r) [] r = Inr (recs, u) \<and> recs \<noteq> []
         \<and> snd (find_comps js query r mb st)
             = st\<lparr>comps := merge_comps (comps st) (new_comps js (Some p) recs)\<rparr>)"
proof (cases "property st")
  case None
  then show ?thesis by (simp add: find_comps_def)
next
  case (Some p)
  show ?thesis
  proof (cases "truthy_num (lat p) \<and> truthy_num (lng p)")
    case False
    with Some show ?thesis by (auto simp: find_comps_def)
  next
    case True
    show ?thesis
    proof (cases "search_radii query (radiiToTry r) [] r")
      case (Inl m)
      with Some True show ?thesis by (simp add: find_comps_def)
    next
      case (Inr b)
      obtain recs u where b: "b = (recs, u)" by (cases b)
      show ?thesis
      proof (cases "recs = []")
        case e: True
        with Some True Inr b show ?thesis by (simp add: find_comps_def)
      next
        case ne: False
        from True have t: "truthy_num (lat p)" "truthy_num (lng p)" by simp_all
        from Inr b have sr: "search_radii query (radiiToTry r) [] r = Inr (recs, u)" by simp
        have "snd (find_comps js query r mb st)
              = st\<lparr>comps := merge_comps (comps st) (new_comps js (Some p) recs)\<rparr>"
          by (simp add: find_comps_found [OF Some t sr ne])
        with Some t sr ne show ?thesis by blast
      qed
    qed
  qed
qed

lemma merge_comps_ids:
  "map comp_id (merge_comps cs new)
   = map comp_id cs @ filter (\<lambda>i. i \<notin> set (map comp_id cs)) (map comp_id new)"
  by (simp add: merge_comps_def Let_def filter_map comp_def)

lemma new_comps_id_list:
  "map comp_id (new_comps js prop recs)
   = map (\<lambda>rec. ''comp-'' @ (case parcel_number rec of
                                None \<Rightarrow> string_of_nat (dateNow js) | Some pn \<Rightarrow> pn))
       (filter (assessed_positive js) recs)"
  by (simp add: new_comps_def record_to_comp_def Let_def)

lemma sample_record_positive: "assessed_positive sample_js (sample_record pn)"
  "assessed_positive later_js (sample_record pn)"
  by (simp_all add: assessed_positive_def assessed_of_def sample_record_def or_default_def
      later_js_def sample_js_def digits_to_real_def is_digit_def nat_of_digits_def digit_val_def
      fl_eval)

lemma sample_clock_strings:
  "string_of_nat (dateNow sample_js) = ''1767225600000''"
  "string_of_nat (dateNow later_js) = ''1767225660000''"
  by (simp_all add: sample_js_def later_js_def digit_char_def string_of_nat.simps)

lemma sample_record_parcel: "parcel_number (sample_record pn) = pn"
  by (simp add: sample_record_def)

subsection \<open>Identifiers given by the tools\<close>

lemma ids_generated_initial: "ids_generated initial_state"
  by (simp add: ids_generated_def initial_state_def)

lemma ids_generated_add:
  "ids_generated st \<Longrightarrow> add_step js act inp st = Inr st' \<Longrightarrow> ids_generated st'"
  by (auto simp: add_step_def ids_generated_def newComp_def split: if_splits option.splits)

lemma ids_generated_update:
  assumes "ids_generated st" and "update_step act inp st = Inr st'"
  shows "ids_generated st'"
proof (cases "act = Update \<and> given_id inp \<noteq> None")
  case False
  with assms show ?thesis by (auto simp: update_step_def)
next
  case True
  then obtain i where g: "given_id inp = Some i" by auto
  then obtain c where c: "inp = Some c" "in_id c = Some i"
    by (auto simp: given_id_def split: option.splits if_splits)
  from assms(2) True g obtain idx where
    f: "findIndex (\<lambda>x. comp_id x = i) (comps st) = Some idx"
    and s: "st' = st\<lparr>comps := (comps st)[idx := spread_comp (comps st ! idx) c]\<rparr>"
    by (auto simp: update_step_def c split: option.splits)
  from findIndex_Some [OF f] have lt: "idx < length (comps st)"
    and at: "comp_id (comps st ! idx) = i" by auto
  from assms(1) lt at have "take 5 i = ''comp-''"
    by (auto simp: ids_generated_def list_all_length)
  then have "take 5 (comp_id (spread_comp (comps st ! idx) c)) = ''comp-''"
    by (simp add: spread_comp_def c)
  with assms(1) show ?thesis
    unfolding s ids_generated_def list_all_iff
    by (auto dest: set_update_subset_insert [THEN subsetD])
qed

lemma ids_generated_remove:
  assumes "ids_generated st" and "remove_step act inp st = Inr st'"
  shows "ids_generated st'"
proof -
  from assms(2) have "set (comps st') \<subseteq> set (comps st)"
    by (auto simp: remove_step_def split: if_splits option.splits
        dest: in_set_takeD in_set_dropD)
  with assms(1) show ?thesis
    by (auto simp: ids_generated_def list_all_iff)
qed

lemma ids_generated_toggle:
  assumes "ids_generated st" and "toggle_step act inp st = Inr st'"
  shows "ids_generated st'"
proof (cases "act = Toggle \<and> given_id inp \<noteq> None")
  case False
  with assms show ?thesis by (auto simp: toggle_step_def)
next
  case True
  with assms(2) obtain idx where
    f: "findIndex (\<lambda>x. comp_id x = the (given_id inp)) (comps st) = Some idx"
    and s: "st' = flip_included idx st"
    by (auto simp: toggle_step_def flip_included_def split: option.splits)
  from findIndex_Some [OF f] have lt: "idx < length (comps st)" by auto
  with assms(1) have "take 5 (comp_id (comps st ! idx)) = ''comp-''"
    by (auto simp: ids_generated_def list_all_length)
  then have "take 5 (comp_id ((comps st ! idx)\<lparr>included := \<not> included (comps st ! idx)\<rparr>))
             = ''comp-''" by simp
  with assms(1) show ?thesis
    unfolding s ids_generated_def flip_included_def list_all_iff
    by (auto dest: set_update_subset_insert [THEN subsetD])
qed

lemma ids_generated_manage_comps:
  assumes "ids_generated st"
  shows "ids_generated (snd (manage_comps js act inp st))"
proof -
  have "snd (manage_comps js act inp st) = st
        \<or> (\<exists>s1 s2 s3 s4. add_step js act inp st = Inr s1 \<and> update_step act inp s1 = Inr s2
              \<and> remove_step act inp s2 = Inr s3 \<and> toggle_step act inp s3 = Inr s4
              \<and> snd (manage_comps js act inp st) = s4)
        \<or> (\<exists>s1. add_step js act inp st = Inr s1 \<and> snd (manage_comps js act inp st) = s1)
        \<or> (\<exists>s1 s2. add_step js act inp st = Inr s1 \<and> update_step act inp s1 = Inr s2
              \<and> snd (manage_comps js act inp st) = s2)
        \<or> (\<exists>s1 s2 s3. add_step js act inp st = Inr s1 \<and> update_step act inp s1 = Inr s2
              \<and> remove_step act inp s2 = Inr s3 \<and> snd (manage_comps js act inp st) = s3)"
    by (auto simp: manage_comps_def split: sum.splits)
  with assms show ?thesis
    by (metis ids_generated_add ids_generated_update ids_generated_remove ids_generated_toggle)
qed

lemma ids_generated_find_comps:
  assumes "ids_generated st"
  shows "ids_generated (snd (find_comps js query r mb st))"
proof -
  have n: "take 5 (comp_id c) = ''comp-''" if "c \<in> set (new_comps js pr recs)" for c pr recs
    using that by (auto simp: new_comps_def record_to_comp_def Let_def)
  from find_comps_state [of js query r mb st]
  consider "snd (find_comps js query r mb st) = st"
    | p recs where "snd (find_comps js query r mb st)
             = st\<lparr>comps := merge_comps (comps st) (new_comps js (Some p) recs)\<rparr>"
    by blast
  then show ?thesis
  proof cases
    case 1
    with assms show ?thesis by simp
  next
    case 2
    have "set (merge_comps (comps st) (new_comps js (Some p) recs))
          \<subseteq> set (comps st) \<union> set (new_comps js (Some p) recs)"
      by (auto simp: merge_comps_def)
    with assms n [of _ "Some p" recs] show ?thesis
      unfolding 2 ids_generated_def list_all_iff by auto
  qed
qed

lemma comps_generate_argument: "comps (snd (generate_argument js tn d st)) = comps st"
  by (simp add: generate_argument_def Let_def split: option.splits)

subsection \<open>Evaluating the normalizer\<close>

lemmas addr_defs = parseAddress_def trim_def collapse_spaces_def is_space_def is_letter_def
  is_digit_def to_upper_def toUpperCase_def suffixMatch_def suffix_at_def suffix_tokens_def
  ci_prefix_def strip_junk_def letters3_def parse_unit_def strip_zero_prefix_def
  nat_of_digits_def digit_val_def digit_char_def string_of_nat.simps Let_def

lemmas sample_defs = sample_state_def sample_comp_def sample_input_def sample_property_def

section \<open>Case strength\<close>

text \<open>
  C1 (as amended). For positive assessed and reference values the scorer returns strong
  exactly when the gap that the program computes, \<open>((a - r) / a) * 100\<close> with each of the
  three operations rounded to a double, is at least 15, medium exactly when that computed
  gap is at least 5 and below 15, and weak otherwise. The computed gap is within the
  relative error \<open>1 / 2^51\<close> of the exact gap percentage, so that the tier is the one of the
  exact gap percentage whenever the latter is not within that margin of 5 or of 15:
  strong if the exact gap less the margin is at least 15 and only if the exact gap plus the
  margin is; medium if the exact gap less the margin is at least 5 and the exact gap plus
  the margin is below 15; weak if the exact gap plus the margin is below 5. The scorer
  returns weak whenever the reference value is at or above the assessed value, and the
  four sample values of the specification come out as strong, medium, weak and weak.
\<close>

theorem calculateCaseStrength_tiers:
  assumes "0 < a" and "0 < r"
  shows "(calculateCaseStrength a r = strong) = (15 \<le> fl (fl (fl (a - r) / a) * 100))
       \<and> (calculateCaseStrength a r = medium)
           = (5 \<le> fl (fl (fl (a - r) / a) * 100) \<and> fl (fl (fl (a - r) / a) * 100) < 15)
       \<and> (calculateCaseStrength a r = weak) = (fl (fl (fl (a - r) / a) * 100) < 5)
       \<and> \<bar>fl (fl (fl (a - r) / a) * 100) - gapPercent a r\<bar> \<le> \<bar>gapPercent a r\<bar> / 2 ^ 51
       \<and> (15 \<le> gapPercent a r * (1 - 1 / 2 ^ 51) \<longrightarrow> calculateCaseStrength a r = strong)
       \<and> (calculateCaseStrength a r = strong \<longrightarrow> 15 \<le> gapPercent a r * (1 + 1 / 2 ^ 51))
       \<and> (5 \<le> gapPercent a r * (1 - 1 / 2 ^ 51) \<and> gapPercent a r * (1 + 1 / 2 ^ 51) < 15
            \<longrightarrow> calculateCaseStrength a r = medium)
       \<and> (calculateCaseStrength a r = medium
            \<longrightarrow> 5 \<le> gapPercent a r * (1 + 1 / 2 ^ 51) \<and> gapPercent a r * (1 - 1 / 2 ^ 51) < 15)
       \<and> (gapPercent a r * (1 + 1 / 2 ^ 51) < 5 \<longrightarrow> calculateCaseStrength a r = weak)
       \<and> (calculateCaseStrength a r = weak \<longrightarrow> gapPercent a r * (1 - 1 / 2 ^ 51) < 5)
       \<and> (a \<le> r \<longrightarrow> calculateCaseStrength a r = weak)
       \<and> calculateCaseStrength 500000 425000 = strong
       \<and> calculateCaseStrength 500000 460000 = medium
       \<and> calculateCaseStrength 500000 490000 = weak
       \<and> calculateCaseStrength 500000 520000 = weak"
proof -
  define g where "g = fl (fl (fl (a - r) / a) * 100)"
  define G where "G = gapPercent a r"
  define e :: real where "e = 1 / 2 ^ 51"
  have e: "0 < e" "e < 1" by (simp_all add: e_def)
  have s: "(calculateCaseStrength a r = strong) = (15 \<le> g)"
    using assms by (simp add: calculateCaseStrength_def Let_def g_def)
  have m: "(calculateCaseStrength a r = medium) = (5 \<le> g \<and> g < 15)"
    using assms by (auto simp: calculateCaseStrength_def Let_def g_def)
  have w: "(calculateCaseStrength a r = weak) = (g < 5)"
    using assms by (auto simp: calculateCaseStrength_def Let_def g_def)
  have G: "G = (a - r) / a * 100" by (simp add: G_def gapPercent_def)
  have neg: "g \<le> 0 \<and> G \<le> 0" if "a \<le> r"
  proof -
    from that have d: "a - r \<le> 0" by simp
    have "g \<le> 0" unfolding g_def by (rule three_roundings_nonpos [OF d assms(1)])
    moreover have "(a - r) / a \<le> 0" using d assms(1) by (simp add: divide_le_0_iff)
    then have "G \<le> 0" unfolding G by (intro mult_nonpos_nonneg) simp_all
    ultimately show ?thesis by simp
  qed
  have pos: "G * (1 - e) \<le> g \<and> g \<le> G * (1 + e) \<and> 0 \<le> G" if "r \<le> a"
  proof -
    from that have d: "0 \<le> a - r" by simp
    have "0 \<le> (a - r) / a" using d assms(1) by simp
    then have "0 \<le> G" unfolding G by (intro mult_nonneg_nonneg) simp_all
    with three_roundings [OF d assms(1)] show ?thesis
      unfolding g_def G e_def by simp
  qed
  have lo: "G * (1 - e) \<le> g \<or> (g \<le> 0 \<and> G \<le> 0)"
    using neg pos by (cases "a \<le> r") auto
  have hi: "g \<le> G * (1 + e) \<or> (g \<le> 0 \<and> G \<le> 0)"
    using neg pos by (cases "a \<le> r") auto
  have err: "\<bar>g - G\<bar> \<le> \<bar>G\<bar> / 2 ^ 51"
  proof (cases "r \<le> a")
    case True
    from pos [OF True] have "G - G * e \<le> g" "g \<le> G + G * e" "0 \<le> G"
      by (simp_all add: algebra_simps)
    then have "\<bar>g - G\<bar> \<le> G * e" by linarith
    with \<open>0 \<le> G\<close> show ?thesis by (simp add: e_def)
  next
    case False
    then have d: "a - r \<le> 0" by simp
    define x where "x = r - a"
    define h where "h = fl (fl (fl x / a) * 100)"
    define H where "H = x / a * 100"
    have x: "0 \<le> x" using False by (simp add: x_def)
    have "fl (a - r) = - fl x" using fl_minus [of x] by (simp add: x_def)
    then have gh: "g = - h"
      unfolding g_def h_def
      using fl_minus [of "fl x / a"] fl_minus [of "fl (fl x / a) * 100"] by simp
    have "a - r = - x" by (simp add: x_def)
    then have GH: "G = - H" unfolding G H_def by simp
    from three_roundings [OF x assms(1)]
    have "H * (1 - e) \<le> h" "h \<le> H * (1 + e)"
      unfolding e_def h_def H_def by simp_all
    then have b: "H - H * e \<le> h" "h \<le> H + H * e"
      by (simp_all add: algebra_simps)
    have "0 \<le> x / a" using x assms(1) by simp
    then have H0: "0 \<le> H" unfolding H_def by (intro mult_nonneg_nonneg) simp_all
    from b have "\<bar>g - G\<bar> \<le> H * e" unfolding gh GH by linarith
    moreover have "\<bar>G\<bar> = H" unfolding GH using H0 by simp
    ultimately show ?thesis by (simp add: e_def)
  qed
  have Ge: "G * (1 + e) \<le> 0 \<and> G * (1 - e) \<le> 0" if "G \<le> 0"
    using that e by (simp add: mult_le_0_iff)
  have b1: "15 \<le> G * (1 - e) \<longrightarrow> calculateCaseStrength a r = strong"
    using lo Ge s by (auto simp: not_le) 
  have b2: "calculateCaseStrength a r = strong \<longrightarrow> 15 \<le> G * (1 + e)"
    using hi s by auto
  have b3: "5 \<le> G * (1 - e) \<and> G * (1 + e) < 15 \<longrightarrow> calculateCaseStrength a r = medium"
    using lo hi Ge m by (auto simp: not_le)
  have b4: "calculateCaseStrength a r = medium \<longrightarrow> 5 \<le> G * (1 + e) \<and> G * (1 - e) < 15"
    using lo hi Ge m by (auto simp: not_le)
  have b5: "G * (1 + e) < 5 \<longrightarrow> calculateCaseStrength a r = weak"
    using hi w by auto
  have b6: "calculateCaseStrength a r = weak \<longrightarrow> G * (1 - e) < 5"
    using lo Ge w by (auto simp: not_le)
  have n: "a \<le> r \<longrightarrow> calculateCaseStrength a r = weak"
    using neg w by auto
  have e1: "calculateCaseStrength 500000 425000 = strong"
    by (simp add: calculateCaseStrength_def Let_def fl_eval)
  have e2: "calculateCaseStrength 500000 460000 = medium"
    by (simp add: calculateCaseStrength_def Let_def fl_eval)
  have e3: "calculateCaseStrength 500000 490000 = weak"
    by (simp add: calculateCaseStrength_def Let_def fl_eval)
  have e4: "calculateCaseStrength 500000 520000 = weak"
    by (simp add: calculateCaseStrength_def Let_def fl_eval)
  from s m w err b1 b2 b3 b4 b5 b6 n e1 e2 e3 e4 show ?thesis
    unfolding g_def G_def e_def by blast
qed

theorem calculateCaseStrength_tiers_witness:
  "(0::real) < 1000000 \<and> (0::real) < 900000
   \<and> gapPercent 1000000 900000 = 10
   \<and> calculateCaseStrength 1000000 900000 = medium
   \<and> (0::real) < 602422 \<and> (0::real) < 8797101480529101 / 17179869184
   \<and> fl (8797101480529101 / 17179869184) = 8797101480529101 / 17179869184
   \<and> fl (fl (fl (602422 - 8797101480529101 / 17179869184) / 602422) * 100) = 15
   \<and> calculateCaseStrength 602422 (8797101480529101 / 17179869184) = strong
   \<and> gapPercent 602422 (8797101480529101 / 17179869184) < 15
   \<and> 15 \<le> gapPercent 602422 (8797101480529101 / 17179869184) * (1 + 1 / 2 ^ 51)"
proof -
  have m: "gapPercent 1000000 900000 = 10 \<and> calculateCaseStrength 1000000 900000 = medium"
    using calculateCaseStrength_tiers [of 1000000 900000]
    by (simp add: gapPercent_def)
  have d: "fl (8797101480529101 / 17179869184) = 8797101480529101 / 17179869184"
    by (simp add: fl_eval)
  have g: "fl (fl (fl (602422 - 8797101480529101 / 17179869184) / 602422) * 100) = 15"
    by (simp add: fl_eval)
  have p: "(0::real) < 602422" "(0::real) < 8797101480529101 / 17179869184"
    by simp_all
  note t = calculateCaseStrength_tiers [OF p]
  have s: "calculateCaseStrength 602422 (8797101480529101 / 17179869184) = strong"
    using t [THEN conjunct1] g by simp
  have b: "15 \<le> gapPercent 602422 (8797101480529101 / 17179869184) * (1 + 1 / 2 ^ 51)"
    using t [THEN conjunct2, THEN conjunct2, THEN conjunct2, THEN conjunct2, THEN conjunct2,
        THEN conjunct1] s
    by (simp only:)
  have l: "gapPercent 602422 (8797101480529101 / 17179869184) < 15"
    by (simp add: gapPercent_def)
  have q: "(0::real) < 1000000" "(0::real) < 900000"
    by simp_all
  from q m d g p s b l show ?thesis by blast
qed

text \<open>
  C1 as stated fails. The doubles nearest to 500000.4 and 425000.34 are
  \<open>4294970731973837 / 2^33\<close> and \<open>7301450244355523 / 2^34\<close>. Their exact gap percentage
  is below 15, but the three rounded operations of the program give the gap 15 exactly,
  and the scorer returns strong.
\<close>

theorem calculateCaseStrength_strong_below_15:
  "fl (4294970731973837 / 8589934592) = 4294970731973837 / 8589934592
   \<and> fl (7301450244355523 / 17179869184) = 7301450244355523 / 17179869184
   \<and> fl (fl (fl (4294970731973837 / 8589934592 - 7301450244355523 / 17179869184)
               / (4294970731973837 / 8589934592)) * 100) = 15
   \<and> calculateCaseStrength (4294970731973837 / 8589934592) (7301450244355523 / 17179869184)
       = strong
   \<and> gapPercent (4294970731973837 / 8589934592) (7301450244355523 / 17179869184) < 15"
  by (simp add: calculateCaseStrength_def gapPercent_def Let_def fl_eval)


section \<open>Managing the comparables\<close>

text \<open>
  C5. For an identifier that a comparable of the case carries, toggle flips the
  \<open>included\<close> flag of that comparable (the first one with the identifier) and changes
  nothing else: the state after the call is the old state with that one flag flipped, so
  every other comparable, every other field, the property and the argument are as
  before. A second toggle of the same identifier gives back the original state, and with
  it the original flag and the original mean price of the included comparables. The case
  is one whose identifiers were given by the tools, as is every case the tools reach from
  the empty one (\<open>ids_generated_initial\<close>, \<open>ids_generated_manage_comps\<close>,
  \<open>ids_generated_find_comps\<close>; no other tool writes the list of comparables).
\<close>

theorem toggle_flips_included_only:
  assumes inv: "ids_generated st" and pres: "i \<in> comp_id ` set (comps st)"
    and inp: "in_id c = Some i"
  shows "\<exists>idx < length (comps st).
           findIndex (\<lambda>x. comp_id x = i) (comps st) = Some idx
         \<and> comp_id (comps st ! idx) = i
         \<and> manage_comps js Toggle (Some c) st
             = (Inr (comps_summary (flip_included idx st)), flip_included idx st)
         \<and> included (comps (flip_included idx st) ! idx) = (\<not> included (comps st ! idx))
         \<and> manage_comps js Toggle (Some c) (flip_included idx st)
             = (Inr (comps_summary st), st)
         \<and> avg_price (included_comps (comps (snd (manage_comps js Toggle (Some c)
                (snd (manage_comps js Toggle (Some c) st))))))
             = avg_price (included_comps (comps st))"
proof -
  from pres obtain x where x: "x \<in> set (comps st)" "comp_id x = i" by auto
  with inv have "take 5 i = ''comp-''"
    by (auto simp: ids_generated_def list_all_iff)
  then have ne: "i \<noteq> []" by auto
  have g: "given_id (Some c) = Some i"
    using inp ne by (simp add: given_id_def truthy_str_def)
  from x have "findIndex (\<lambda>x. comp_id x = i) (comps st) \<noteq> None"
    by (auto simp: findIndex_None)
  then obtain idx where f: "findIndex (\<lambda>x. comp_id x = i) (comps st) = Some idx"
    by auto
  from findIndex_Some [OF f] have lt: "idx < length (comps st)"
    and at: "comp_id (comps st ! idx) = i" by auto
  have t1: "toggle_step Toggle (Some c) st = Inr (flip_included idx st)"
    by (rule toggle_step_flip [OF g f])
  have f2: "findIndex (\<lambda>x. comp_id x = i) (comps (flip_included idx st)) = Some idx"
    using findIndex_flip [OF lt] f by simp
  have t2: "toggle_step Toggle (Some c) (flip_included idx st) = Inr st"
    using toggle_step_flip [OF g f2] flip_included_twice [OF lt] by simp
  have m1: "manage_comps js Toggle (Some c) st
            = (Inr (comps_summary (flip_included idx st)), flip_included idx st)"
    by (simp add: manage_comps_def steps_other t1)
  have m2: "manage_comps js Toggle (Some c) (flip_included idx st) = (Inr (comps_summary st), st)"
    by (simp add: manage_comps_def steps_other t2)
  have fl: "included (comps (flip_included idx st) ! idx) = (\<not> included (comps st ! idx))"
    using lt by (simp add: flip_included_def)
  have av: "avg_price (included_comps (comps (snd (manage_comps js Toggle (Some c)
                (snd (manage_comps js Toggle (Some c) st))))))
             = avg_price (included_comps (comps st))"
    by (simp add: m1 m2)
  from lt f at m1 m2 fl av show ?thesis by blast
qed

theorem toggle_flips_included_only_witness:
  "ids_generated sample_state
   \<and> ''comp-0595141'' \<in> comp_id ` set (comps sample_state)
   \<and> (\<exists>idx < length (comps sample_state).
           findIndex (\<lambda>x. comp_id x = ''comp-0595141'') (comps sample_state) = Some idx
         \<and> manage_comps sample_js Toggle (Some (sample_input (Some ''comp-0595141'') None))
               sample_state
             = (Inr (comps_summary (flip_included idx sample_state)),
                flip_included idx sample_state)
         \<and> manage_comps sample_js Toggle (Some (sample_input (Some ''comp-0595141'') None))
               (flip_included idx sample_state)
             = (Inr (comps_summary sample_state), sample_state))"
proof -
  have h1: "ids_generated sample_state"
    by (simp add: ids_generated_def sample_defs)
  have h2: "''comp-0595141'' \<in> comp_id ` set (comps sample_state)"
    by (simp add: sample_defs)
  have h3: "in_id (sample_input (Some ''comp-0595141'') None) = Some ''comp-0595141''"
    by (simp add: sample_defs)
  from toggle_flips_included_only [OF h1 h2 h3, of sample_js] h1 h2 show ?thesis
    by blast
qed

text \<open>
  C8 (as amended). The add action fails with InvalidComparable exactly when no payload
  is given or its address, sale date or sale price is missing or falsy (an empty string, a
  price of zero); a failure leaves the state as it was. Otherwise it succeeds and appends
  exactly one comparable, which is included, carries the three given fields, and has zero
  for each omitted number and the empty string for omitted notes.
\<close>

theorem add_requires_truthy_fields:
  "(fst (manage_comps js Add inp st) = Inl InvalidComparable)
     = (inp = None
        \<or> (\<exists>c. inp = Some c
              \<and> (in_address c = None \<or> in_address c = Some []
                  \<or> in_saleDate c = None \<or> in_saleDate c = Some []
                  \<or> in_salePrice c = None \<or> in_salePrice c = Some 0)))
   \<and> (\<forall>e. fst (manage_comps js Add inp st) = Inl e
          \<longrightarrow> e = InvalidComparable \<and> snd (manage_comps js Add inp st) = st)
   \<and> (\<forall>w. fst (manage_comps js Add inp st) = Inr w
          \<longrightarrow> (\<exists>c n. inp = Some c
                 \<and> snd (manage_comps js Add inp st) = st\<lparr>comps := comps st @ [n]\<rparr>
                 \<and> w = comps_summary (st\<lparr>comps := comps st @ [n]\<rparr>)
                 \<and> n = \<lparr>comp_id = ''comp-'' @ string_of_nat (dateNow js),
                        comp_address = the (in_address c), saleDate = the (in_saleDate c),
                        salePrice = the (in_salePrice c),
                        comp_sqft = Some (case in_sqft c of None \<Rightarrow> 0 | Some v \<Rightarrow> v),
                        comp_beds = Some (case in_beds c of None \<Rightarrow> 0 | Some v \<Rightarrow> v),
                        comp_baths = Some (case in_baths c of None \<Rightarrow> 0 | Some v \<Rightarrow> v),
                        distance = (case in_distance c of None \<Rightarrow> 0 | Some v \<Rightarrow> v),
                        included = True,
                        comp_notes = (case in_notes c of None \<Rightarrow> [] | Some v \<Rightarrow> v)\<rparr>))"
proof -
  let ?r = "manage_comps js Add inp st"
  let ?bad = "inp = None
        \<or> (\<exists>c. inp = Some c
              \<and> (in_address c = None \<or> in_address c = Some []
                  \<or> in_saleDate c = None \<or> in_saleDate c = Some []
                  \<or> in_salePrice c = None \<or> in_salePrice c = Some 0))"
  have rejected: "?r = (Inl InvalidComparable, st)" if "?bad"
  proof (cases inp)
    case None
    then show ?thesis by (simp add: manage_comps_def add_step_def)
  next
    case (Some c)
    with that have "\<not> truthy_str (in_address c) \<or> \<not> truthy_num (in_salePrice c)
                    \<or> \<not> truthy_str (in_saleDate c)"
      by (auto simp: truthy_str_def truthy_num_def)
    then have "add_step js Add (Some c) st = Inl InvalidComparable"
      by (auto simp: add_step_def)
    then show ?thesis by (simp add: manage_comps_def Some)
  qed
  have accepted: "\<exists>c. inp = Some c
                    \<and> ?r = (Inr (comps_summary (st\<lparr>comps := comps st @ [newComp js c]\<rparr>)),
                            st\<lparr>comps := comps st @ [newComp js c]\<rparr>)" if "\<not> ?bad"
  proof -
    from that obtain c where c: "inp = Some c" by auto
    with that have "truthy_str (in_address c)" "truthy_num (in_salePrice c)"
      "truthy_str (in_saleDate c)"
      by (auto simp: truthy_str_def truthy_num_def split: option.splits)
    then have "add_step js Add (Some c) st = Inr (st\<lparr>comps := comps st @ [newComp js c]\<rparr>)"
      by (simp add: add_step_def)
    then have "manage_comps js Add (Some c) st
             = (Inr (comps_summary (st\<lparr>comps := comps st @ [newComp js c]\<rparr>)),
                st\<lparr>comps := comps st @ [newComp js c]\<rparr>)"
      by (simp add: manage_comps_def steps_other)
    with c show ?thesis by blast
  qed
  have c1: "(fst ?r = Inl InvalidComparable) = ?bad"
  proof (cases "?bad")
    case True
    with rejected show ?thesis by simp
  next
    case False
    from accepted [OF False] have "\<exists>w. fst ?r = Inr w" by auto
    with False show ?thesis by auto
  qed
  have c2: "\<forall>e. fst ?r = Inl e \<longrightarrow> e = InvalidComparable \<and> snd ?r = st"
  proof (cases "?bad")
    case True
    with rejected show ?thesis by simp
  next
    case False
    from accepted [OF False] have "\<exists>w. fst ?r = Inr w" by auto
    then show ?thesis by auto
  qed
  have c3: "\<forall>w. fst ?r = Inr w
          \<longrightarrow> (\<exists>c. inp = Some c
                 \<and> snd ?r = st\<lparr>comps := comps st @ [newComp js c]\<rparr>
                 \<and> w = comps_summary (st\<lparr>comps := comps st @ [newComp js c]\<rparr>))"
  proof (cases "?bad")
    case True
    with rejected show ?thesis by simp
  next
    case False
    from accepted [OF False] show ?thesis by auto
  qed
  from c1 c2 c3 show ?thesis
    unfolding newComp_def by blast
qed

theorem add_requires_truthy_fields_witness:
  "fst (manage_comps sample_js Add (Some (sample_input None (Some 950000))) sample_state)
     \<noteq> Inl InvalidComparable
   \<and> (fst (manage_comps sample_js Add (Some (sample_input None None)) sample_state)
     = Inl InvalidComparable)"
proof -
  let ?ok = "sample_input None (Some 950000)"
  let ?bad = "sample_input None None"
  from add_requires_truthy_fields [of sample_js "Some ?ok" sample_state]
  have "(fst (manage_comps sample_js Add (Some ?ok) sample_state) = Inl InvalidComparable)
     = (Some ?ok = None
        \<or> (\<exists>c. Some ?ok = Some c
              \<and> (in_address c = None \<or> in_address c = Some []
                  \<or> in_saleDate c = None \<or> in_saleDate c = Some []
                  \<or> in_salePrice c = None \<or> in_salePrice c = Some 0)))"
    by (rule conjunct1)
  then have a: "fst (manage_comps sample_js Add (Some ?ok) sample_state) \<noteq> Inl InvalidComparable"
    by (simp add: sample_input_def)
  from add_requires_truthy_fields [of sample_js "Some ?bad" sample_state]
  have "(fst (manage_comps sample_js Add (Some ?bad) sample_state) = Inl InvalidComparable)
     = (Some ?bad = None
        \<or> (\<exists>c. Some ?bad = Some c
              \<and> (in_address c = None \<or> in_address c = Some []
                  \<or> in_saleDate c = None \<or> in_saleDate c = Some []
                  \<or> in_salePrice c = None \<or> in_salePrice c = Some 0)))"
    by (rule conjunct1)
  then have b: "fst (manage_comps sample_js Add (Some ?bad) sample_state) = Inl InvalidComparable"
    by (simp add: sample_input_def)
  from a b show ?thesis by simp
qed

text \<open>
  C8 as stated fails: a payload that has an address, a sale date and a sale price, the
  price being 0, is rejected.
\<close>

theorem add_zero_price_rejected:
  "in_address (sample_input None (Some 0)) \<noteq> None
   \<and> in_saleDate (sample_input None (Some 0)) \<noteq> None
   \<and> in_salePrice (sample_input None (Some 0)) \<noteq> None
   \<and> manage_comps sample_js Add (Some (sample_input None (Some 0))) sample_state
       = (Inl InvalidComparable, sample_state)"
  by (simp add: manage_comps_def add_step_def sample_input_def truthy_str_def truthy_num_def)

text \<open>
  C9 (as amended). Remove with a non-empty identifier that no comparable of the case
  carries fails with NotFound and leaves the whole state as it was.
\<close>

theorem remove_unknown_id:
  assumes "in_id c = Some i" and "i \<noteq> []" and "i \<notin> comp_id ` set (comps st)"
  shows "manage_comps js Remove (Some c) st = (Inl (NotFound i), st)"
proof -
  have g: "given_id (Some c) = Some i"
    using assms by (simp add: given_id_def truthy_str_def)
  have f: "findIndex (\<lambda>x. comp_id x = i) (comps st) = None"
    using assms(3) by (auto simp: findIndex_None)
  show ?thesis
    by (simp add: manage_comps_def steps_other remove_step_def g f)
qed

theorem remove_unknown_id_witness:
  "''comp-none'' \<notin> comp_id ` set (comps sample_state)
   \<and> manage_comps sample_js Remove (Some (sample_input (Some ''comp-none'') None)) sample_state
       = (Inl (NotFound ''comp-none''), sample_state)"
proof -
  have h1: "in_id (sample_input (Some ''comp-none'') None) = Some ''comp-none''"
    by (simp add: sample_input_def)
  have h2: "''comp-none'' \<noteq> []" by simp
  have h3: "''comp-none'' \<notin> comp_id ` set (comps sample_state)"
    by (simp add: sample_defs)
  from remove_unknown_id [OF h1 h2 h3, of sample_js] h3 show ?thesis by simp
qed

text \<open>
  C9 as stated fails for the empty identifier: no comparable carries it, and remove
  succeeds without touching the state.
\<close>

theorem remove_empty_id_succeeds:
  "[] \<notin> comp_id ` set (comps sample_state)
   \<and> manage_comps sample_js Remove (Some (sample_input (Some []) None)) sample_state
       = (Inr (comps_summary sample_state), sample_state)"
  by (simp add: manage_comps_def steps_other remove_step_def given_id_def sample_defs
      truthy_str_def)



section \<open>Drafting the argument\<close>

text \<open>
  C7 (as amended). With an active property and at least one included comparable,
  generate-argument called without a declared value succeeds and stores an argument whose
  declared market value is the mean sale price of the included comparables as the program
  computes it, rounded to the nearest whole number with a tie going up: the prices are
  added from the left, starting from 0, each sum rounded to a double, and the total is
  divided by their number, the quotient rounded to a double. When the included prices are
  whole numbers that are not negative and their sum is below \<open>2^52\<close>, that value is the
  exact mean of the included prices rounded to the nearest whole number, a tie going up;
  when the included prices are 900000 and 1000000, it is 950000.
\<close>

theorem default_declared_value:
  assumes "property st = Some p" and "filter included (comps st) \<noteq> []"
  shows "(\<exists>t. generate_argument js tn None st
              = (Inr t,
                 st\<lparr>argument :=
                      Some \<lparr>narrative = t,
                            declaredMarketValue =
                              of_int \<lfloor>fl (foldl (\<lambda>s x. fl (s + x)) 0
                                            (map salePrice (filter included (comps st)))
                                          / real (length (filter included (comps st))))
                                      + 1 / 2\<rfloor>,
                            arg_tone = tn\<rparr>\<rparr>))
       \<and> ((\<forall>x \<in> set (map salePrice (filter included (comps st))). x \<in> \<nat>)
            \<and> sum_list (map salePrice (filter included (comps st))) < 2 ^ 52
            \<longrightarrow> map_option declaredMarketValue (argument (snd (generate_argument js tn None st)))
                = Some (of_int \<lfloor>sum_list (map salePrice (filter included (comps st)))
                                  / real (length (filter included (comps st)))
                                + 1 / 2\<rfloor>))
       \<and> (map salePrice (filter included (comps st)) = [900000, 1000000]
            \<longrightarrow> map_option declaredMarketValue (argument (snd (generate_argument js tn None st)))
                = Some 950000)"
proof -
  define incl where "incl = filter included (comps st)"
  define ps where "ps = map salePrice incl"
  define d :: real where
    "d = of_int \<lfloor>fl (foldl (\<lambda>s x. fl (s + x)) 0 ps / real (length incl)) + 1 / 2\<rfloor>"
  have ne: "incl \<noteq> []" using assms(2) by (simp add: incl_def)
  have g: "generate_argument js tn None st
           = (Inr t, st\<lparr>argument := Some \<lparr>narrative = t, declaredMarketValue = d, arg_tone = tn\<rparr>\<rparr>)"
    if "t = (if tn = formal then narrative_formal js p incl d
                   (percent_fixed1 js (fl (assessedValue p - d)) (assessedValue p))
             else if tn = concise then narrative_concise js p incl d
                   (percent_fixed1 js (fl (assessedValue p - d)) (assessedValue p))
             else narrative_neutral js p incl d
                   (percent_fixed1 js (fl (assessedValue p - d)) (assessedValue p))
                   (avg_price incl))" for t
    using assms(1) ne that
    by (simp add: generate_argument_def Let_def included_comps_def avg_price_map Math_round_def
        incl_def [symmetric] ps_def [symmetric] d_def [symmetric])
  then have c1: "\<exists>t. generate_argument js tn None st
           = (Inr t, st\<lparr>argument := Some \<lparr>narrative = t, declaredMarketValue = d, arg_tone = tn\<rparr>\<rparr>)"
    by blast
  then have v: "map_option declaredMarketValue (argument (snd (generate_argument js tn None st)))
                = Some d"
    by auto
  have exact: "d = of_int \<lfloor>sum_list ps / real (length incl) + 1 / 2\<rfloor>"
    if nat: "\<forall>x \<in> set ps. x \<in> \<nat>" and small: "sum_list ps < 2 ^ 52"
  proof -
    have "(0::real) \<in> \<nat>" by simp
    moreover from small have "0 + sum_list ps < 2 ^ 53" by simp
    ultimately have f: "foldl (\<lambda>s x. fl (s + x)) 0 ps = 0 + sum_list ps"
      using nat by (intro foldl_fl_exact) simp_all
    from nat have "sum_list ps \<in> \<nat>"
      by (induction ps) (simp_all add: Nats_add)
    then obtain S where S: "sum_list ps = real S" by (auto simp: Nats_def)
    from small have "real S < real (2 ^ 52)" by (simp add: S)
    then have S52: "S < 2 ^ 52" by (simp only: of_nat_less_iff)
    from ne have n: "0 < length incl" by simp
    from fl_quotient_round [OF n S52] show ?thesis
      by (simp add: d_def f S)
  qed
  have c2: "(\<forall>x \<in> set ps. x \<in> \<nat>) \<and> sum_list ps < 2 ^ 52
            \<longrightarrow> map_option declaredMarketValue (argument (snd (generate_argument js tn None st)))
                = Some (of_int \<lfloor>sum_list ps / real (length incl) + 1 / 2\<rfloor>)"
  proof
    assume "(\<forall>x \<in> set ps. x \<in> \<nat>) \<and> sum_list ps < 2 ^ 52"
    then have "d = of_int \<lfloor>sum_list ps / real (length incl) + 1 / 2\<rfloor>"
      using exact by blast
    with v show "map_option declaredMarketValue (argument (snd (generate_argument js tn None st)))
                = Some (of_int \<lfloor>sum_list ps / real (length incl) + 1 / 2\<rfloor>)"
      by (simp only:)
  qed
  have c3: "ps = [900000, 1000000]
            \<longrightarrow> map_option declaredMarketValue (argument (snd (generate_argument js tn None st)))
                = Some 950000"
  proof
    assume e: "ps = [900000, 1000000]"
    then have "length ps = 2" by simp
    then have l: "length incl = 2" by (simp add: ps_def)
    have "\<forall>x \<in> set ps. x \<in> \<nat>" by (simp add: e)
    moreover have "sum_list ps < 2 ^ 52" by (simp add: e)
    ultimately have "d = of_int \<lfloor>sum_list ps / real (length incl) + 1 / 2\<rfloor>" by (rule exact)
    then have "d = 950000" by (simp add: e l)
    with v show "map_option declaredMarketValue (argument (snd (generate_argument js tn None st)))
                = Some 950000" by simp
  qed
  from c1 c2 c3 show ?thesis
    unfolding d_def ps_def incl_def by blast
qed

theorem default_declared_value_witness:
  "property mixed_state = Some sample_property
   \<and> map salePrice (comps mixed_state) = [900001, 5000000, 1000000]
   \<and> map salePrice (filter included (comps mixed_state)) = [900001, 1000000]
   \<and> map_option declaredMarketValue
        (argument (snd (generate_argument sample_js neutral None mixed_state))) = Some 950001
   \<and> property tie_state = Some sample_property
   \<and> map salePrice (filter included (comps tie_state))
       = [524289, 9007199254740991 / 8589934592]
   \<and> fl (9007199254740991 / 8589934592) = 9007199254740991 / 8589934592
   \<and> fst (generate_argument sample_js formal None tie_state) \<noteq> Inl NoIncludedComps
   \<and> map_option declaredMarketValue
        (argument (snd (generate_argument sample_js formal None tie_state))) = Some 786433
   \<and> real_of_int \<lfloor>(524289 + 9007199254740991 / 8589934592) / 2 + 1 / 2 :: real\<rfloor> = 786432"
proof -
  have h1: "property mixed_state = Some sample_property"
    by (simp add: mixed_state_def)
  have h2: "map salePrice (comps mixed_state) = [900001, 5000000, 1000000]"
    by (simp add: mixed_state_def sample_comp_def)
  have h3: "map salePrice (filter included (comps mixed_state)) = [900001, 1000000]"
    by (simp add: mixed_state_def sample_comp_def)
  then have "length (map salePrice (filter included (comps mixed_state))) = 2" by simp
  then have l: "length (filter included (comps mixed_state)) = 2" by simp
  then have h4: "filter included (comps mixed_state) \<noteq> []" by auto
  from default_declared_value [OF h1 h4, of sample_js neutral, THEN conjunct2, THEN conjunct1]
  have a: "map_option declaredMarketValue
          (argument (snd (generate_argument sample_js neutral None mixed_state))) = Some 950001"
    by (simp add: h3 l)
  have k1: "property tie_state = Some sample_property"
    by (simp add: tie_state_def)
  have k3: "map salePrice (filter included (comps tie_state))
            = [524289, 9007199254740991 / 8589934592]"
    by (simp add: tie_state_def sample_comp_def)
  then have "length (map salePrice (filter included (comps tie_state))) = 2" by simp
  then have n: "length (filter included (comps tie_state)) = 2" by simp
  then have k4: "filter included (comps tie_state) \<noteq> []" by auto
  have d: "fl (9007199254740991 / 8589934592) = 9007199254740991 / 8589934592"
    by (simp add: fl_eval)
  have v: "real_of_int \<lfloor>fl (foldl (\<lambda>s x. fl (s + x)) 0 [524289, 9007199254740991 / 8589934592]
                             / real 2) + 1 / 2\<rfloor> = 786433"
    by (simp add: fl_eval)
  from default_declared_value [OF k1 k4, of sample_js formal, THEN conjunct1]
  obtain t where t: "generate_argument sample_js formal None tie_state
        = (Inr t, tie_state\<lparr>argument :=
             Some \<lparr>narrative = t, declaredMarketValue = 786433, arg_tone = formal\<rparr>\<rparr>)"
    unfolding k3 n v by blast
  have b: "fst (generate_argument sample_js formal None tie_state) \<noteq> Inl NoIncludedComps"
    by (simp add: t)
  have c: "map_option declaredMarketValue
        (argument (snd (generate_argument sample_js formal None tie_state))) = Some 786433"
    by (simp add: t)
  have e: "real_of_int \<lfloor>(524289 + 9007199254740991 / 8589934592) / 2 + 1 / 2 :: real\<rfloor> = 786432"
    by simp
  from h1 h2 h3 a k1 k3 d b c e show ?thesis by blast
qed

text \<open>
  C7 as stated fails for prices that are not whole numbers. With two included comparables
  priced at the doubles nearest to 553880.36 and 1897794.64, the exact mean of the two
  prices is below 1225837.5 and rounds to 1225837, but the sum of the program is the
  double 2451675, its half is 1225837.5, and the declared value is 1225838.
\<close>

theorem default_declared_value_off_by_one:
  "fl (4757796064193413 / 8589934592) = 4757796064193413 / 8589934592
   \<and> fl (8150965913324093 / 4294967296) = 8150965913324093 / 4294967296
   \<and> property cents_state = Some sample_property
   \<and> map salePrice (filter included (comps cents_state))
       = [4757796064193413 / 8589934592, 8150965913324093 / 4294967296]
   \<and> map_option declaredMarketValue
        (argument (snd (generate_argument sample_js neutral None cents_state))) = Some 1225838
   \<and> real_of_int \<lfloor>(4757796064193413 / 8589934592 + 8150965913324093 / 4294967296) / 2
                     + 1 / 2 :: real\<rfloor> = 1225837"
proof -
  have a: "fl (4757796064193413 / 8589934592) = 4757796064193413 / 8589934592"
    by (simp add: fl_eval)
  have b: "fl (8150965913324093 / 4294967296) = 8150965913324093 / 4294967296"
    by (simp add: fl_eval)
  have p: "property cents_state = Some sample_property"
    by (simp add: cents_state_def)
  have i: "map salePrice (filter included (comps cents_state))
           = [4757796064193413 / 8589934592, 8150965913324093 / 4294967296]"
    by (simp add: cents_state_def sample_comp_def)
  have m: "avg_price (included_comps (comps cents_state)) = 2451675 / 2"
    by (simp add: avg_price_def included_comps_def cents_state_def sample_comp_def fl_eval)
  have d: "map_option declaredMarketValue
             (argument (snd (generate_argument sample_js neutral None cents_state)))
           = Some (Math_round (avg_price (included_comps (comps cents_state))))"
    by (simp add: generate_argument_def Let_def p)
       (simp add: included_comps_def cents_state_def sample_comp_def)
  have r: "Math_round (2451675 / 2) = 1225838"
    by (simp add: Math_round_def)
  have e: "real_of_int \<lfloor>(4757796064193413 / 8589934592 + 8150965913324093 / 4294967296) / 2
                     + 1 / 2 :: real\<rfloor> = 1225837"
    by simp
  from d have "map_option declaredMarketValue
        (argument (snd (generate_argument sample_js neutral None cents_state))) = Some 1225838"
    unfolding m r .
  with a b p i e show ?thesis by blast
qed

section \<open>Building the packet\<close>

text \<open>
  C6. generate-packet and export-packet fail exactly when no property is active, no
  comparable of the case has its \<open>included\<close> flag set, or no argument has been drafted
  (with the error of the first of the three that is missing), and neither changes the
  case. When the three are there, both succeed with the same document. The document
  contains, one after the other and each on a line of its own, the table rows of the
  included comparables, in the order of the case and none for a comparable that is not
  included in between: a row holds the address, the sale date, the price after a dollar
  sign, the area, beds/baths, the distance in miles and the notes (a dash when there are
  none), between bars. After the rows comes the narrative of the drafted argument
  verbatim, and right after the narrative the document ends with the lines of the
  checklist and of the submission instructions, which are fixed but for the state of the
  filing window.
\<close>

theorem packet_prerequisites_and_content:
  "((\<exists>e. fst (generate_packet js st) = Inl e)
      = (property st = None \<or> filter included (comps st) = [] \<or> argument st = None))
   \<and> ((\<exists>e. fst (export_packet js st) = Inl e)
      = (property st = None \<or> filter included (comps st) = [] \<or> argument st = None))
   \<and> (property st = None
        \<longrightarrow> fst (generate_packet js st) = Inl NoActiveProperty
          \<and> fst (export_packet js st) = Inl NoActiveProperty)
   \<and> (property st \<noteq> None \<and> filter included (comps st) = []
        \<longrightarrow> fst (generate_packet js st) = Inl NoIncludedComps
          \<and> fst (export_packet js st) = Inl NoIncludedComps)
   \<and> (property st \<noteq> None \<and> filter included (comps st) \<noteq> [] \<and> argument st = None
        \<longrightarrow> fst (generate_packet js st) = Inl NoArgument
          \<and> fst (export_packet js st) = Inl NoArgument)
   \<and> snd (generate_packet js st) = st
   \<and> snd (export_packet js st) = st
   \<and> (\<forall>p arg. property st = Some p \<and> filter included (comps st) \<noteq> []
                \<and> argument st = Some arg
        \<longrightarrow> (\<exists>w h m.
               fst (generate_packet js st) = Inr w
             \<and> fst (export_packet js st) = Inr (pk_output w)
             \<and> pk_comps w = filter included (comps st)
             \<and> pk_output w
                 = h @ concat (map (\<lambda>c. CHR 0x0A
                         # ''| '' @ comp_address c @ '' | '' @ saleDate c @ '' | $''
                           @ toLocaleStringUS js (salePrice c) @ '' | ''
                           @ (case comp_sqft c of None \<Rightarrow> ''NaN''
                              | Some v \<Rightarrow> toLocaleString js v) @ '' | ''
                           @ (case comp_beds c of None \<Rightarrow> ''NaN''
                              | Some v \<Rightarrow> numToString js v) @ ''/''
                           @ (case comp_baths c of None \<Rightarrow> ''NaN''
                              | Some v \<Rightarrow> numToString js v) @ '' | ''
                           @ numToString js (distance c) @ '' mi | ''
                           @ (if comp_notes c \<noteq> [] then comp_notes c
                              else [CHR 0xE2, CHR 0x80, CHR 0x94]) @ '' |'')
                                (filter included (comps st)))
                   @ m @ narrative arg
                   @ concat (map (\<lambda>l. CHR 0x0A # l)
                        [CHR 0x0A # ''## Submission Checklist'',
                         ''- [ ] Review all property details above for accuracy'',
                         ''- [ ] Verify comparable sales are appropriate'',
                         ''- [ ] Review value argument narrative'',
                         ''- [ ] Submit via one of the methods below'',
                         ''- [ ] Keep a copy of everything you submit'',
                         CHR 0x0A # ''## How to Submit'',
                         ''**Filing Window:** ''
                           @ (if (getMonth js = 0 \<and> 2 \<le> getDate js) \<or> getMonth js = 1
                                  \<or> getMonth js = 2
                               then ''OPEN (Jan 2 '' @ [CHR 0xE2, CHR 0x80, CHR 0x93] @ '' Mar 31)''
                               else ''CLOSED''),
                         CHR 0x0A # ''### Online (Preferred)'',
                         ''SF Assessor-Recorder Community Portal: https://sfassessor.org/community-portal'',
                         CHR 0x0A # ''### By Mail'',
                         ''Office of the Assessor-Recorder, City Hall, Room 190'',
                         ''1 Dr. Carlton B. Goodlett Place, San Francisco, CA 94102'',
                         CHR 0x0A # ''### By Fax'',
                         ''(415) 554-7151'',
                         CHR 0x0A # ''### By Email'',
                         ''assessor@sfgov.org'',
                         CHR 0x0A # ''## Important Reminders'',
                         ''- Only the property **owner** may file (no third-party filings)'',
                         ''- Comparable sales should be as close to January 1 as possible'',
                         ''- Sales after March 31 will **not** be considered'',
                         ''- Results are mailed in **July** via Notice of Assessed Value'',
                         ''- If denied, you may file a formal Assessment Appeal (AAB)'',
                         CHR 0x0A # ''---'',
                         ''*This packet was prepared using OnlyAppeals. It provides informational and document-preparation support only ''
                           @ [CHR 0xE2, CHR 0x80, CHR 0x94]
                           @ '' not legal or tax advice. No guarantee of assessment reduction is made or implied.*''])))"
proof -
  define incl where "incl = filter included (comps st)"
  have ic: "included_comps (comps st) = incl" by (simp add: included_comps_def incl_def)
  let ?missing = "property st = None \<or> incl = [] \<or> argument st = None"
  have g_err: "\<exists>e. generate_packet js st = (Inl e, st)" if "?missing"
    using that by (auto simp: generate_packet_def Let_def ic split: option.splits)
  have x_err: "\<exists>e. export_packet js st = (Inl e, st)" if "?missing"
    using that by (auto simp: export_packet_def Let_def ic split: option.splits)
  have ok: "\<exists>w h m.
               generate_packet js st = (Inr w, st)
             \<and> export_packet js st = (Inr (pk_output w), st)
             \<and> pk_comps w = incl
             \<and> pk_output w = h @ concat (map (\<lambda>c. nl @ comp_row js c) incl) @ m
                   @ narrative arg @ nl @ join nl (packet_tail js)"
    if p: "property st = Some p" and i: "incl \<noteq> []" and a: "argument st = Some arg"
    for p arg
  proof -
    define avg where "avg = Math_round (avg_price incl)"
    define cs where "cs = calculateCaseStrength (assessedValue p) (declaredMarketValue arg)"
    define doc where "doc = buildPacketMarkdown js p incl arg cs avg"
    define w where "w = \<lparr>pk_property = p, pk_comps = incl, pk_argument = arg,
                          pk_caseStrength = cs, pk_avgCompPrice = avg,
                          pk_filingWindowOpen = isFilingWindowOpen js, pk_output = doc\<rparr>"
    have g: "generate_packet js st = (Inr w, st)"
      using p i a by (simp add: generate_packet_def Let_def ic w_def doc_def cs_def avg_def)
    have x: "export_packet js st = (Inr (pk_output w), st)"
      using p i a by (simp add: export_packet_def Let_def ic w_def doc_def cs_def avg_def)
    from packet_document_shape [OF i, of js p arg cs avg] obtain h m where
      sh: "doc = h @ concat (map (\<lambda>c. nl @ comp_row js c) incl) @ m @ narrative arg
                 @ nl @ join nl (packet_tail js)"
      unfolding doc_def by blast
    have o: "pk_output w = doc" and c: "pk_comps w = incl" by (simp_all add: w_def)
    have sh': "pk_output w = h @ concat (map (\<lambda>c. nl @ comp_row js c) incl) @ m
                   @ narrative arg @ nl @ join nl (packet_tail js)"
      using sh o by simp
    from g x c sh' show ?thesis by blast
  qed
  have c1: "(\<exists>e. fst (generate_packet js st) = Inl e) = ?missing"
  proof (cases "?missing")
    case True
    with g_err show ?thesis by auto
  next
    case False
    then obtain p arg where "property st = Some p" "incl \<noteq> []" "argument st = Some arg"
      by auto
    from ok [OF this] False show ?thesis by auto
  qed
  have c2: "(\<exists>e. fst (export_packet js st) = Inl e) = ?missing"
  proof (cases "?missing")
    case True
    with x_err show ?thesis by auto
  next
    case False
    then obtain p arg where "property st = Some p" "incl \<noteq> []" "argument st = Some arg"
      by auto
    from ok [OF this] False show ?thesis by auto
  qed
  have c3: "snd (generate_packet js st) = st"
    by (simp add: generate_packet_def Let_def split: option.splits)
  have c4: "snd (export_packet js st) = st"
    by (simp add: export_packet_def Let_def split: option.splits)
  have c5: "\<forall>p arg. property st = Some p \<and> incl \<noteq> [] \<and> argument st = Some arg
        \<longrightarrow> (\<exists>w h m.
               fst (generate_packet js st) = Inr w
             \<and> fst (export_packet js st) = Inr (pk_output w)
             \<and> pk_comps w = incl
             \<and> pk_output w = h @ concat (map (\<lambda>c. nl @ comp_row js c) incl) @ m
                   @ narrative arg @ nl @ join nl (packet_tail js))"
  proof (intro allI impI)
    fix p arg
    assume "property st = Some p \<and> incl \<noteq> [] \<and> argument st = Some arg"
    then have "property st = Some p" "incl \<noteq> []" "argument st = Some arg" by simp_all
    from ok [OF this] obtain w h m where
      "generate_packet js st = (Inr w, st)"
      "export_packet js st = (Inr (pk_output w), st)"
      "pk_comps w = incl"
      "pk_output w = h @ concat (map (\<lambda>c. nl @ comp_row js c) incl) @ m
                   @ narrative arg @ nl @ join nl (packet_tail js)"
      by blast
    then have "fst (generate_packet js st) = Inr w
             \<and> fst (export_packet js st) = Inr (pk_output w)
             \<and> pk_comps w = incl
             \<and> pk_output w = h @ concat (map (\<lambda>c. nl @ comp_row js c) incl) @ m
                   @ narrative arg @ nl @ join nl (packet_tail js)"
      by simp
    then show "\<exists>w h m.
               fst (generate_packet js st) = Inr w
             \<and> fst (export_packet js st) = Inr (pk_output w)
             \<and> pk_comps w = incl
             \<and> pk_output w = h @ concat (map (\<lambda>c. nl @ comp_row js c) incl) @ m
                   @ narrative arg @ nl @ join nl (packet_tail js)"
      by blast
  qed
  have e1: "property st = None
        \<longrightarrow> fst (generate_packet js st) = Inl NoActiveProperty
          \<and> fst (export_packet js st) = Inl NoActiveProperty"
    by (simp add: generate_packet_def export_packet_def)
  have e2: "property st \<noteq> None \<and> incl = []
        \<longrightarrow> fst (generate_packet js st) = Inl NoIncludedComps
          \<and> fst (export_packet js st) = Inl NoIncludedComps"
    by (auto simp: generate_packet_def export_packet_def Let_def ic)
  have e3: "property st \<noteq> None \<and> incl \<noteq> [] \<and> argument st = None
        \<longrightarrow> fst (generate_packet js st) = Inl NoArgument
          \<and> fst (export_packet js st) = Inl NoArgument"
    by (auto simp: generate_packet_def export_packet_def Let_def ic)
  from c1 c2 e1 e2 e3 c3 c4 c5 show ?thesis
    unfolding incl_def comp_row_text packet_tail_text by blast
qed

theorem packet_prerequisites_and_content_witness:
  "property drafted_mixed_state = Some sample_property
   \<and> map comp_id (comps drafted_mixed_state) = [''comp-0595140'', ''comp-0595141'', ''comp-0595142'']
   \<and> map comp_id (filter included (comps drafted_mixed_state)) = [''comp-0595140'', ''comp-0595142'']
   \<and> argument drafted_mixed_state = Some sample_argument
   \<and> (\<exists>w h m. fst (generate_packet sample_js drafted_mixed_state) = Inr w
          \<and> fst (export_packet sample_js drafted_mixed_state) = Inr (pk_output w)
          \<and> pk_output w
              = h @ (CHR 0x0A # ''| 990 GREEN ST | 2025-06-01 | $900001 | 1000 | 2/1 | 0 mi | '' @ [CHR 0xE2, CHR 0x80, CHR 0x94] @ '' |'')
                @ (CHR 0x0A # ''| 2100 JACKSON ST | 2025-06-01 | $1000000 | NaN | 2/1 | 0 mi | Dwelling |'')
                @ m @ ''Based on these sales, market value is $950,000. Requesting reduction.''
                @ concat (map (\<lambda>l. CHR 0x0A # l)
                        [CHR 0x0A # ''## Submission Checklist'',
                         ''- [ ] Review all property details above for accuracy'',
                         ''- [ ] Verify comparable sales are appropriate'',
                         ''- [ ] Review value argument narrative'',
                         ''- [ ] Submit via one of the methods below'',
                         ''- [ ] Keep a copy of everything you submit'',
                         CHR 0x0A # ''## How to Submit'',
                         ''**Filing Window:** ''
                           @ ''OPEN (Jan 2 '' @ [CHR 0xE2, CHR 0x80, CHR 0x93] @ '' Mar 31)'',
                         CHR 0x0A # ''### Online (Preferred)'',
                         ''SF Assessor-Recorder Community Portal: https://sfassessor.org/community-portal'',
                         CHR 0x0A # ''### By Mail'',
                         ''Office of the Assessor-Recorder, City Hall, Room 190'',
                         ''1 Dr. Carlton B. Goodlett Place, San Francisco, CA 94102'',
                         CHR 0x0A # ''### By Fax'',
                         ''(415) 554-7151'',
                         CHR 0x0A # ''### By Email'',
                         ''assessor@sfgov.org'',
                         CHR 0x0A # ''## Important Reminders'',
                         ''- Only the property **owner** may file (no third-party filings)'',
                         ''- Comparable sales should be as close to January 1 as possible'',
                         ''- Sales after March 31 will **not** be considered'',
                         ''- Results are mailed in **July** via Notice of Assessed Value'',
                         ''- If denied, you may file a formal Assessment Appeal (AAB)'',
                         CHR 0x0A # ''---'',
                         ''*This packet was prepared using OnlyAppeals. It provides informational and document-preparation support only ''
                           @ [CHR 0xE2, CHR 0x80, CHR 0x94]
                           @ '' not legal or tax advice. No guarantee of assessment reduction is made or implied.*'']))
   \<and> fst (generate_packet sample_js none_included_state) = Inl NoIncludedComps
   \<and> fst (export_packet sample_js none_included_state) = Inl NoIncludedComps
   \<and> fst (generate_packet sample_js mixed_state) = Inl NoArgument
   \<and> fst (export_packet sample_js initial_state) = Inl NoActiveProperty"
proof -
  have h1: "property drafted_mixed_state = Some sample_property"
    by (simp add: drafted_mixed_state_def mixed_state_def)
  have h2: "map comp_id (comps drafted_mixed_state)
            = [''comp-0595140'', ''comp-0595141'', ''comp-0595142'']"
    by (simp add: drafted_mixed_state_def mixed_state_def sample_comp_def)
  have f: "filter included (comps drafted_mixed_state)
           = [sample_comp ''comp-0595140'' 900001 True,
              (sample_comp ''comp-0595142'' 1000000 True)
                \<lparr>comp_address := ''2100 JACKSON ST'', comp_sqft := None,
                 comp_notes := ''Dwelling''\<rparr>]"
    by (simp add: drafted_mixed_state_def mixed_state_def sample_comp_def)
  have h3: "map comp_id (filter included (comps drafted_mixed_state))
            = [''comp-0595140'', ''comp-0595142'']"
    unfolding f by (simp add: sample_comp_def)
  have h4: "argument drafted_mixed_state = Some sample_argument"
    by (simp add: drafted_mixed_state_def)
  have ne: "filter included (comps drafted_mixed_state) \<noteq> []"
    unfolding f by simp
  from h1 ne h4 have h: "property drafted_mixed_state = Some sample_property
           \<and> filter included (comps drafted_mixed_state) \<noteq> []
           \<and> argument drafted_mixed_state = Some sample_argument"
    by simp
  note t = packet_prerequisites_and_content [of sample_js drafted_mixed_state, THEN conjunct2,
      THEN conjunct2, THEN conjunct2, THEN conjunct2, THEN conjunct2, THEN conjunct2,
      THEN conjunct2, rule_format, OF h]
  have doc: "\<exists>w h m. fst (generate_packet sample_js drafted_mixed_state) = Inr w
          \<and> fst (export_packet sample_js drafted_mixed_state) = Inr (pk_output w)
          \<and> pk_output w
              = h @ (CHR 0x0A # ''| 990 GREEN ST | 2025-06-01 | $900001 | 1000 | 2/1 | 0 mi | '' @ [CHR 0xE2, CHR 0x80, CHR 0x94] @ '' |'')
                @ (CHR 0x0A # ''| 2100 JACKSON ST | 2025-06-01 | $1000000 | NaN | 2/1 | 0 mi | Dwelling |'')
                @ m @ ''Based on these sales, market value is $950,000. Requesting reduction.''
                @ concat (map (\<lambda>l. CHR 0x0A # l)
                        [CHR 0x0A # ''## Submission Checklist'',
                         ''- [ ] Review all property details above for accuracy'',
                         ''- [ ] Verify comparable sales are appropriate'',
                         ''- [ ] Review value argument narrative'',
                         ''- [ ] Submit via one of the methods below'',
                         ''- [ ] Keep a copy of everything you submit'',
                         CHR 0x0A # ''## How to Submit'',
                         ''**Filing Window:** ''
                           @ ''OPEN (Jan 2 '' @ [CHR 0xE2, CHR 0x80, CHR 0x93] @ '' Mar 31)'',
                         CHR 0x0A # ''### Online (Preferred)'',
                         ''SF Assessor-Recorder Community Portal: https://sfassessor.org/community-portal'',
                         CHR 0x0A # ''### By Mail'',
                         ''Office of the Assessor-Recorder, City Hall, Room 190'',
                         ''1 Dr. Carlton B. Goodlett Place, San Francisco, CA 94102'',
                         CHR 0x0A # ''### By Fax'',
                         ''(415) 554-7151'',
                         CHR 0x0A # ''### By Email'',
                         ''assessor@sfgov.org'',
                         CHR 0x0A # ''## Important Reminders'',
                         ''- Only the property **owner** may file (no third-party filings)'',
                         ''- Comparable sales should be as close to January 1 as possible'',
                         ''- Sales after March 31 will **not** be considered'',
                         ''- Results are mailed in **July** via Notice of Assessed Value'',
                         ''- If denied, you may file a formal Assessment Appeal (AAB)'',
                         CHR 0x0A # ''---'',
                         ''*This packet was prepared using OnlyAppeals. It provides informational and document-preparation support only ''
                           @ [CHR 0xE2, CHR 0x80, CHR 0x94]
                           @ '' not legal or tax advice. No guarantee of assessment reduction is made or implied.*''])"
    using t unfolding f
    by (auto simp: sample_comp_def sample_js_def sample_argument_def print_int_part_def
        digit_char_def string_of_nat.simps)
  have n1: "property none_included_state \<noteq> None
            \<and> filter included (comps none_included_state) = []"
    by (simp add: none_included_state_def sample_comp_def)
  note e1 = packet_prerequisites_and_content [of sample_js none_included_state, THEN conjunct2,
      THEN conjunct2, THEN conjunct2, THEN conjunct1, rule_format, OF n1]
  have n2: "property mixed_state \<noteq> None \<and> filter included (comps mixed_state) \<noteq> []
            \<and> argument mixed_state = None"
    by (simp add: mixed_state_def sample_comp_def)
  note e2 = packet_prerequisites_and_content [of sample_js mixed_state, THEN conjunct2,
      THEN conjunct2, THEN conjunct2, THEN conjunct2, THEN conjunct1, rule_format, OF n2]
  have n3: "property initial_state = None"
    by (simp add: initial_state_def)
  note e3 = packet_prerequisites_and_content [of sample_js initial_state, THEN conjunct2,
      THEN conjunct2, THEN conjunct1, rule_format, OF n3]
  from h1 h2 h3 h4 doc e1 e2 e3 show ?thesis by blast
qed

section \<open>Searching for comparables\<close>

text \<open>
  C2 (as amended). The radii that find-comps tries are in strictly ascending order, and
  they are exactly the values of {r, 0.75, 1.0, 1.5, 2.0} that are at least the requested
  radius r; none exceeds the larger of r and 2.0, so none exceeds 2.0 when r does not.
  The effective radius is the first of them whose query yields a record. Hence, for a
  requested radius of 0.5 whose query yields nothing while that of 1.0 yields records, the
  effective radius is 0.75 if the query at 0.75 yields records and 1.0 if it yields none;
  it is never 1.5 or 2.0.
\<close>

theorem radii_ascending_and_first_hit:
  "sorted_wrt (<) (radiiToTry r)
   \<and> set (radiiToTry r) = {x \<in> {r, 0.75, 1.0, 1.5, 2.0}. r \<le> x}
   \<and> (\<forall>x \<in> set (radiiToTry r). x \<le> max r 2.0)
   \<and> (r \<le> 2.0 \<longrightarrow> (\<forall>x \<in> set (radiiToTry r). x \<le> 2.0))
   \<and> (\<forall>p pre u post recs.
         property st = Some p \<and> truthy_num (lat p) \<and> truthy_num (lng p)
         \<and> radiiToTry r = pre @ u # post
         \<and> (\<forall>x \<in> set pre. query (radiusMeters x) = Inr [])
         \<and> query (radiusMeters u) = Inr recs \<and> recs \<noteq> []
         \<longrightarrow> used_radius (fst (find_comps js query r mb st)) = Some u)
   \<and> (\<forall>p recs75 recs1.
         property st = Some p \<and> truthy_num (lat p) \<and> truthy_num (lng p)
         \<and> query (radiusMeters 0.5) = Inr []
         \<and> query (radiusMeters 0.75) = Inr recs75
         \<and> query (radiusMeters 1.0) = Inr recs1 \<and> recs1 \<noteq> []
         \<longrightarrow> used_radius (fst (find_comps js query 0.5 mb st))
             = Some (if recs75 \<noteq> [] then 0.75 else 1.0))"
proof -
  have hit: "used_radius (fst (find_comps js query r' mb st)) = Some u"
    if "property st = Some p" "truthy_num (lat p)" "truthy_num (lng p)"
      "radiiToTry r' = pre @ u # post"
      "\<forall>x \<in> set pre. query (radiusMeters x) = Inr []"
      "query (radiusMeters u) = Inr recs" "recs \<noteq> []"
    for p pre u post recs r'
  proof -
    have "search_radii query (radiiToTry r') [] r' = Inr (recs, u)"
      unfolding that(4) by (rule search_radii_first [OF that(5) that(6) that(7)])
    from find_comps_found [OF that(1) that(2) that(3) this that(7)]
    show ?thesis by (simp add: used_radius_def)
  qed
  have c5: "\<forall>p pre u post recs.
         property st = Some p \<and> truthy_num (lat p) \<and> truthy_num (lng p)
         \<and> radiiToTry r = pre @ u # post
         \<and> (\<forall>x \<in> set pre. query (radiusMeters x) = Inr [])
         \<and> query (radiusMeters u) = Inr recs \<and> recs \<noteq> []
         \<longrightarrow> used_radius (fst (find_comps js query r mb st)) = Some u"
    using hit by blast
  have c6: "used_radius (fst (find_comps js query 0.5 mb st))
             = Some (if recs75 \<noteq> [] then 0.75 else 1.0)"
    if "property st = Some p" "truthy_num (lat p)" "truthy_num (lng p)"
      "query (radiusMeters 0.5) = Inr []"
      "query (radiusMeters 0.75) = Inr recs75"
      "query (radiusMeters 1.0) = Inr recs1" "recs1 \<noteq> []"
    for p recs75 recs1
  proof (cases "recs75 = []")
    case True
    have l: "radiiToTry 0.5 = [0.5, 0.75] @ 1.0 # [1.5, 2.0]"
      by (simp add: radiiToTry_def)
    have "\<forall>x \<in> set [0.5, 0.75]. query (radiusMeters x) = Inr []"
      using that(4) that(5) True by simp
    from hit [OF that(1) that(2) that(3) l this that(6) that(7)] True
    show ?thesis by simp
  next
    case False
    have l: "radiiToTry 0.5 = [0.5] @ 0.75 # [1.0, 1.5, 2.0]"
      by (simp add: radiiToTry_def)
    have "\<forall>x \<in> set [0.5]. query (radiusMeters x) = Inr []"
      using that(4) by simp
    from hit [OF that(1) that(2) that(3) l this that(5) False] False
    show ?thesis by simp
  qed
  have c3: "\<forall>x \<in> set (radiiToTry r). x \<le> max r 2.0"
    using radii_bound by auto
  have c4: "r \<le> 2.0 \<longrightarrow> (\<forall>x \<in> set (radiiToTry r). x \<le> 2.0)"
    using radii_bound [of _ r] by (auto simp: max_def split: if_splits)
  from radii_sorted [of r] radii_set [of r] c3 c4 c5 c6 show ?thesis
    by blast
qed

theorem radii_ascending_and_first_hit_witness:
  "property sample_state = Some sample_property
   \<and> radiiToTry 0.5 = [0.5] @ 0.75 # [1.0, 1.5, 2.0]
   \<and> sample_source (radiusMeters 0.5) = Inr []
   \<and> sample_source (radiusMeters 0.75) = Inr [sample_record (Some ''0595150'')]
   \<and> used_radius (fst (find_comps sample_js sample_source 0.5 24 sample_state)) = Some 0.75"
proof -
  have p: "property sample_state = Some sample_property"
    by (simp add: sample_state_def)
  have c: "truthy_num (lat sample_property)" "truthy_num (lng sample_property)"
    by (simp_all add: sample_property_def truthy_num_def)
  have l: "radiiToTry 0.5 = [0.5] @ 0.75 # [1.0, 1.5, 2.0]"
    by (simp add: radiiToTry_def)
  have q1: "sample_source (radiusMeters 0.5) = Inr []"
    by (simp add: sample_source_def radiusMeters_def Math_round_def fl_eval)
  have q2: "sample_source (radiusMeters 0.75) = Inr [sample_record (Some ''0595150'')]"
    by (simp add: sample_source_def radiusMeters_def Math_round_def fl_eval)
  have pre: "\<forall>x \<in> set [0.5]. sample_source (radiusMeters x) = Inr []"
    using q1 by simp
  have "used_radius (fst (find_comps sample_js sample_source 0.5 24 sample_state)) = Some 0.75"
    using radii_ascending_and_first_hit [where r = "0.5" and st = sample_state
        and query = sample_source and js = sample_js and mb = 24,
        THEN conjunct2, THEN conjunct2, THEN conjunct2, THEN conjunct2, THEN conjunct1,
        rule_format, where p = sample_property and pre = "[0.5]" and u = "0.75"
          and post = "[1.0, 1.5, 2.0]" and recs = "[sample_record (Some ''0595150'')]"]
      p c l pre q2
    by simp
  with p l q1 q2 show ?thesis by simp
qed

text \<open>
  C2 as stated fails twice. A requested radius of 3 is tried as it is, above the
  ceiling of 2.0. And with a requested radius of 0.5, a source that yields nothing at 0.5
  and a record at 0.75 and at 1.0 gives the effective radius 0.75, not 1.0.
\<close>

theorem radius_above_ceiling_and_early_hit:
  "radiiToTry 3 = [3] \<and> (2::real) < 3
   \<and> sample_source (radiusMeters 0.5) = Inr []
   \<and> sample_source (radiusMeters 1.0) = Inr [sample_record (Some ''0595150'')]
   \<and> used_radius (fst (find_comps sample_js sample_source 0.5 24 sample_state)) = Some 0.75"
proof -
  have p: "property sample_state = Some sample_property"
    by (simp add: sample_state_def)
  have c: "truthy_num (lat sample_property)" "truthy_num (lng sample_property)"
    by (simp_all add: sample_property_def truthy_num_def)
  have q1: "sample_source (radiusMeters 0.5) = Inr []"
    by (simp add: sample_source_def radiusMeters_def Math_round_def fl_eval)
  have q2: "sample_source (radiusMeters 0.75) = Inr [sample_record (Some ''0595150'')]"
    by (simp add: sample_source_def radiusMeters_def Math_round_def fl_eval)
  have q3: "sample_source (radiusMeters 1.0) = Inr [sample_record (Some ''0595150'')]"
    by (simp add: sample_source_def radiusMeters_def Math_round_def fl_eval)
  have s: "search_radii sample_source (radiiToTry 0.5) [] 0.5
           = Inr ([sample_record (Some ''0595150'')], 0.75)"
    by (simp add: radiiToTry_def sample_source_def radiusMeters_def Math_round_def fl_eval)
  have u: "used_radius (fst (find_comps sample_js sample_source 0.5 24 sample_state)) = Some 0.75"
    using find_comps_found [OF p c s, of sample_js 24] by (simp add: used_radius_def)
  have r: "radiiToTry 3 = [3]"
    by (simp add: radiiToTry_def)
  from r q1 q3 u show ?thesis by simp
qed

text \<open>
  C3 (as amended). Let every row the record source returns carry a parcel number. Then
  find-comps only appends to the comparable list: the comparables already there stay as
  they are, each appended one has the identifier \<open>comp-\<close> followed by the parcel number
  of a returned row, and none has an identifier that was in the list before (a candidate
  whose identifier exists is skipped, not overwritten). The property and the argument
  are untouched. A second run with the same radius and the same responses, at whatever
  time, adds nothing: it leaves the state of the first run unchanged. If moreover the
  identifiers of the case were distinct and no response holds two rows of one parcel
  number, the identifiers stay distinct after the first and after the second run.
\<close>

theorem find_comps_rerun_adds_nothing:
  assumes keyed: "\<forall>m recs. query m = Inr recs \<longrightarrow> (\<forall>rec \<in> set recs. parcel_number rec \<noteq> None)"
    and pf: "parseFloat js2 = parseFloat js"
  shows "(\<exists>added. snd (find_comps js query r mb st) = st\<lparr>comps := comps st @ added\<rparr>
            \<and> (\<forall>c \<in> set added.
                   comp_id c \<notin> comp_id ` set (comps st)
                 \<and> (\<exists>m recs rec pn. query m = Inr recs \<and> rec \<in> set recs
                        \<and> parcel_number rec = Some pn \<and> comp_id c = ''comp-'' @ pn)))
       \<and> snd (find_comps js2 query r mb (snd (find_comps js query r mb st)))
           = snd (find_comps js query r mb st)
       \<and> (distinct (map comp_id (comps st))
            \<and> (\<forall>m recs. query m = Inr recs \<longrightarrow> distinct (map parcel_number recs))
          \<longrightarrow> distinct (map comp_id (comps (snd (find_comps js query r mb st))))
            \<and> distinct (map comp_id (comps (snd (find_comps js2 query r mb
                   (snd (find_comps js query r mb st)))))))"
proof -
  let ?st1 = "snd (find_comps js query r mb st)"
  let ?st2 = "snd (find_comps js2 query r mb ?st1)"
  let ?dist = "distinct (map comp_id (comps st))
            \<and> (\<forall>m recs. query m = Inr recs \<longrightarrow> distinct (map parcel_number recs))"
  let ?app = "\<exists>added. ?st1 = st\<lparr>comps := comps st @ added\<rparr>
            \<and> (\<forall>c \<in> set added.
                   comp_id c \<notin> comp_id ` set (comps st)
                 \<and> (\<exists>m recs rec pn. query m = Inr recs \<and> rec \<in> set recs
                        \<and> parcel_number rec = Some pn \<and> comp_id c = ''comp-'' @ pn))"
  from find_comps_state [of js query r mb st]
  consider (unchanged) "?st1 = st"
    | (more) p recs u where "property st = Some p" "truthy_num (lat p)" "truthy_num (lng p)"
        "search_radii query (radiiToTry r) [] r = Inr (recs, u)" "recs \<noteq> []"
        "?st1 = st\<lparr>comps := merge_comps (comps st) (new_comps js (Some p) recs)\<rparr>"
    by blast
  then have "?app \<and> ?st2 = ?st1 \<and> (?dist \<longrightarrow> distinct (map comp_id (comps ?st1)))"
  proof cases
    case unchanged
    have a: ?app
    proof -
      have "?st1 = st\<lparr>comps := comps st @ []\<rparr>
            \<and> (\<forall>c \<in> set ([] :: Comp list).
                   comp_id c \<notin> comp_id ` set (comps st)
                 \<and> (\<exists>m recs rec pn. query m = Inr recs \<and> rec \<in> set recs
                        \<and> parcel_number rec = Some pn \<and> comp_id c = ''comp-'' @ pn))"
        using unchanged by simp
      then show ?thesis by blast
    qed
    have b: "?st2 = ?st1"
    proof -
      from find_comps_state [of js2 query r mb st]
      consider "snd (find_comps js2 query r mb st) = st"
        | p recs u where "property st = Some p" "truthy_num (lat p)" "truthy_num (lng p)"
            "search_radii query (radiiToTry r) [] r = Inr (recs, u)" "recs \<noteq> []"
        by blast
      then have "snd (find_comps js2 query r mb st) = st"
      proof cases
        case 1
        then show ?thesis .
      next
        case 2
        have e: "snd (find_comps js query r mb st)
                 = st\<lparr>comps := merge_comps (comps st) (new_comps js (Some p) recs)\<rparr>"
          using find_comps_found [OF 2, of js mb] by simp
        have "comps (snd (find_comps js query r mb st))
              = merge_comps (comps st) (new_comps js (Some p) recs)"
          by (simp add: e)
        with unchanged have m: "merge_comps (comps st) (new_comps js (Some p) recs) = comps st"
          by simp
        from search_radii_found [OF 2(4) 2(5) refl] keyed
        have k: "\<forall>rec \<in> set recs. parcel_number rec \<noteq> None" by blast
        from find_comps_found [OF 2, of js2 mb] new_comps_clock [OF pf k, of "Some p"] m
        show ?thesis by simp
      qed
      with unchanged show ?thesis by simp
    qed
    from a b unchanged show ?thesis by simp
  next
    case more
    define new where "new = new_comps js (Some p) recs"
    from search_radii_found [OF more(4) more(5) refl] obtain pre post where
      q: "query (radiusMeters u) = Inr recs" by blast
    with keyed have k: "\<forall>rec \<in> set recs. parcel_number rec \<noteq> None" by blast
    have st1: "?st1 = st\<lparr>comps := merge_comps (comps st) new\<rparr>"
      using more(6) by (simp add: new_def)
    have a: ?app
    proof -
      let ?added = "filter (\<lambda>c. comp_id c \<notin> set (map comp_id (comps st))) new"
      have 1: "?st1 = st\<lparr>comps := comps st @ ?added\<rparr>"
        by (simp add: st1 merge_comps_def Let_def)
      have 2: "comp_id c \<notin> comp_id ` set (comps st)
               \<and> (\<exists>m recs rec pn. query m = Inr recs \<and> rec \<in> set recs
                        \<and> parcel_number rec = Some pn \<and> comp_id c = ''comp-'' @ pn)"
        if "c \<in> set ?added" for c
      proof -
        from that have c: "c \<in> set new" "comp_id c \<notin> comp_id ` set (comps st)" by auto
        from new_comps_ids [OF k c(1) [unfolded new_def]] obtain rec pn where
          "rec \<in> set recs" "parcel_number rec = Some pn" "comp_id c = ''comp-'' @ pn" by blast
        with q c(2) show ?thesis by blast
      qed
      from 1 2 show ?thesis by blast
    qed
    have p1: "property ?st1 = Some p" and c1: "comps ?st1 = merge_comps (comps st) new"
      by (simp_all add: st1 more(1))
    have b: "?st2 = ?st1"
    proof -
      have "find_comps js2 query r mb ?st1
            = (Inr \<lparr>ws_property = Some p,
                 ws_comps = merge_comps (comps ?st1) (new_comps js2 (Some p) recs),
                 ws_caseStrength =
                   strength_for p (merge_comps (comps ?st1) (new_comps js2 (Some p) recs)),
                 ws_output =
                   FoundComps (length (new_comps js2 (Some p) recs)) u (u > r) r
                     (length (merge_comps (comps ?st1) (new_comps js2 (Some p) recs)))
                     (strength_for p (merge_comps (comps ?st1) (new_comps js2 (Some p) recs)))\<rparr>,
            ?st1\<lparr>comps := merge_comps (comps ?st1) (new_comps js2 (Some p) recs)\<rparr>)"
        by (rule find_comps_found [OF p1 more(2) more(3) more(4) more(5)])
      then have "?st2 = ?st1\<lparr>comps := merge_comps (comps ?st1) (new_comps js2 (Some p) recs)\<rparr>"
        by simp
      also have "new_comps js2 (Some p) recs = new"
        unfolding new_def by (rule new_comps_clock [OF pf k])
      also have "merge_comps (comps ?st1) new = comps ?st1"
        unfolding c1 by (rule merge_comps_idem)
      finally show ?thesis by simp
    qed
    have d: "distinct (map comp_id (comps ?st1))" if ?dist
    proof -
      from that q have "distinct (map parcel_number recs)" by blast
      from new_comps_distinct [OF k this, of js "Some p"]
      have "distinct (map comp_id new)" by (simp add: new_def)
      with that show ?thesis unfolding c1 by (simp add: merge_comps_distinct)
    qed
    from a b d show ?thesis by blast
  qed
  then show ?thesis by simp
qed

theorem find_comps_rerun_adds_nothing_witness:
  "parseFloat later_js = parseFloat sample_js
   \<and> map comp_id (comps (snd (find_comps sample_js sample_source 0.5 24 sample_state)))
       = [''comp-0595140'', ''comp-0595141'', ''comp-0595150'']
   \<and> snd (find_comps later_js sample_source 0.5 24
            (snd (find_comps sample_js sample_source 0.5 24 sample_state)))
       = snd (find_comps sample_js sample_source 0.5 24 sample_state)"
proof -
  define st1 where "st1 = snd (find_comps sample_js sample_source 0.5 24 sample_state)"
  have k: "\<forall>m recs. sample_source m = Inr recs
             \<longrightarrow> (\<forall>rec \<in> set recs. parcel_number rec \<noteq> None)"
    by (auto simp: sample_source_def sample_record_def split: if_splits)
  have f: "parseFloat later_js = parseFloat sample_js"
    by (simp add: later_js_def)
  have p: "property sample_state = Some sample_property"
    by (simp add: sample_state_def)
  have c: "truthy_num (lat sample_property)" "truthy_num (lng sample_property)"
    by (simp_all add: sample_property_def truthy_num_def)
  have s: "search_radii sample_source (radiiToTry 0.5) [] 0.5
           = Inr ([sample_record (Some ''0595150'')], 0.75)"
    by (simp add: radiiToTry_def sample_source_def radiusMeters_def Math_round_def fl_eval)
  have "comps st1
        = merge_comps (comps sample_state)
            (new_comps sample_js (Some sample_property) [sample_record (Some ''0595150'')])"
    unfolding st1_def using find_comps_found [OF p c s, of sample_js 24] by simp
  then have i: "map comp_id (comps st1) = [''comp-0595140'', ''comp-0595141'', ''comp-0595150'']"
    by (simp add: merge_comps_ids new_comps_id_list sample_record_positive sample_defs
        sample_record_parcel)
  have "snd (find_comps later_js sample_source 0.5 24 st1) = st1"
    unfolding st1_def
    by (rule find_comps_rerun_adds_nothing [OF k f, THEN conjunct2, THEN conjunct1])
  with f i show ?thesis unfolding st1_def by simp
qed

text \<open>
  C3 as stated fails for a row without a parcel number: its identifier is taken from
  the clock, so a second run one minute later, on the same response, adds the row
  again under a new identifier.
\<close>

theorem find_comps_rerun_adds_unkeyed_row:
  "map comp_id (comps (snd (find_comps sample_js unkeyed_source 0.5 24 sample_state)))
     = [''comp-0595140'', ''comp-0595141'', ''comp-1767225600000'']
   \<and> map comp_id (comps (snd (find_comps later_js unkeyed_source 0.5 24
         (snd (find_comps sample_js unkeyed_source 0.5 24 sample_state)))))
     = [''comp-0595140'', ''comp-0595141'', ''comp-1767225600000'', ''comp-1767225660000'']"
proof -
  define st1 where "st1 = snd (find_comps sample_js unkeyed_source 0.5 24 sample_state)"
  define st2 where "st2 = snd (find_comps later_js unkeyed_source 0.5 24 st1)"
  have p: "property sample_state = Some sample_property"
    by (simp add: sample_state_def)
  have c: "truthy_num (lat sample_property)" "truthy_num (lng sample_property)"
    by (simp_all add: sample_property_def truthy_num_def)
  have s: "search_radii unkeyed_source (radiiToTry 0.5) [] 0.5 = Inr ([sample_record None], 0.5)"
    by (simp add: radiiToTry_def unkeyed_source_def)
  have e1: "st1 = sample_state\<lparr>comps := merge_comps (comps sample_state)
                      (new_comps sample_js (Some sample_property) [sample_record None])\<rparr>"
    unfolding st1_def using find_comps_found [OF p c s, of sample_js 24] by simp
  then have c1: "comps st1 = merge_comps (comps sample_state)
                      (new_comps sample_js (Some sample_property) [sample_record None])"
    by simp
  have a: "map comp_id (comps sample_state) = [''comp-0595140'', ''comp-0595141'']"
    by (simp add: sample_defs)
  have b1: "map comp_id (new_comps sample_js (Some sample_property) [sample_record None])
            = [''comp-1767225600000'']"
    by (simp add: new_comps_id_list sample_record_positive sample_clock_strings
        sample_record_parcel)
  have b2: "map comp_id (new_comps later_js (Some sample_property) [sample_record None])
            = [''comp-1767225660000'']"
    by (simp add: new_comps_id_list sample_record_positive sample_clock_strings
        sample_record_parcel)
  have i1: "map comp_id (comps st1)
            = [''comp-0595140'', ''comp-0595141'', ''comp-1767225600000'']"
    by (simp add: c1 merge_comps_ids a b1)
  from e1 p have p1: "property st1 = Some sample_property"
    by simp
  have c2: "comps st2
        = merge_comps (comps st1)
            (new_comps later_js (Some sample_property) [sample_record None])"
    unfolding st2_def using find_comps_found [OF p1 c s, of later_js 24] by simp
  have i2: "map comp_id (comps st2)
            = [''comp-0595140'', ''comp-0595141'', ''comp-1767225600000'', ''comp-1767225660000'']"
    by (simp add: c2 merge_comps_ids i1 b2)
  from i1 i2 show ?thesis unfolding st2_def st1_def by simp
qed

section \<open>Normalising an address\<close>

text \<open>
  C4. The normalizer on raw addresses of the positional format. The two addresses of the
  specification come out as \<open>1625 PACIFIC AV #7\<close> and \<open>990 GREEN ST\<close>. An address of
  the same format whose street name holds the letters of a suffix token does not come
  out as number, name and suffix: the anchor stops at the \<open>ST\<close> inside \<open>CASTRO\<close>, so
  the name is cut to \<open>CA\<close> and the rest of the line becomes the unit. The third example
  of the comment above \<open>parseAddress\<close>, said there to give \<open>1139 GREEN ST\<close>, keeps
  the letters of the secondary number in the name.
\<close>

theorem parseAddress_on_positional_addresses:
  "parseAddress ''0000 1625 PACIFIC             AV0007'' = ''1625 PACIFIC AV #7''
   \<and> parseAddress ''0000 0990 GREEN                ST0000'' = ''990 GREEN ST''
   \<and> parseAddress ''0000 0100 CASTRO              ST0000'' = ''100 CA ST #ROST0000''
   \<and> parseAddress ''0000 1139D1139BGREEN           ST0000'' = ''1139 DBGREEN ST''"
proof -
  have a: "parseAddress ''0000 1625 PACIFIC             AV0007'' = ''1625 PACIFIC AV #7''"
    by (simp add: addr_defs)
  have b: "parseAddress ''0000 0990 GREEN                ST0000'' = ''990 GREEN ST''"
    by (simp add: addr_defs)
  have c: "parseAddress ''0000 0100 CASTRO              ST0000'' = ''100 CA ST #ROST0000''"
    by (simp add: addr_defs)
  have d: "parseAddress ''0000 1139D1139BGREEN           ST0000'' = ''1139 DBGREEN ST''"
    by (simp add: addr_defs)
  from a b c d show ?thesis by simp
qed

end
